theory Spec2Isabelle
  imports Complex_Main "HOL-Library.Word"
begin

unbundle bit_operations_syntax

section \<open>Conventions of the embedding\<close>

text \<open>
  The C++ type \<open>double\<close> has two models. In the sections that follow the source
  files it is \<open>real\<close>: arithmetic is exact, there is no rounding, overflow, infinity
  or NaN; the statements about the network, the simulator step and the demonstration
  run are made there. The statements that range over every input of the arithmetic of
  \<open>Drone.cpp\<close> (claims C7 and C8) are made on a second embedding of that file, in the
  section on double arithmetic, where a \<open>double\<close> is a finite value, a negative zero,
  an infinity or NaN, and \<open>+\<close>, \<open>*\<close>, \<open>/\<close> and \<open>sqrt\<close> are a parameter.
  The C++ type \<open>int\<close> (message ids, counters, drone
  ids) is modelled by \<open>int\<close>; signed overflow is undefined behaviour in C++ and no
  statement below depends on it. \<open>std::string\<close> is \<open>string\<close>, a list of 8-bit
  characters. \<open>std::vector\<close> is a list, \<open>push_back\<close> appends at the end.
  A member function takes the object as its first argument and returns the object as
  it is after the call. The data members of \<open>Network\<close> and \<open>Node\<close> are named
  without the underscore that ends their names in the source; \<open>net_step\<close> and
  \<open>sim_step\<close> are \<open>Network::step\<close> and \<open>Simulator::step\<close>, the fields of
  \<open>Vector2\<close> are \<open>vx\<close> and \<open>vy\<close>, and the fields \<open>id\<close>, \<open>from\<close> and \<open>to\<close>
  of the two message records carry the prefixes \<open>msg\<close> and \<open>rm\<close>. In the second
  embedding of \<open>Drone.cpp\<close> every name carries the suffix \<open>_d\<close>.
\<close>

section \<open>Vector2.h\<close>

record Vector2 =
  vx :: real
  vy :: real

definition vec_add :: "Vector2 \<Rightarrow> Vector2 \<Rightarrow> Vector2" where
  \<comment> \<open>\<open>operator+\<close> and \<open>operator+=\<close>\<close>
  "vec_add a b = \<lparr>vx = vx a + vx b, vy = vy a + vy b\<rparr>"

definition vec_scale :: "Vector2 \<Rightarrow> real \<Rightarrow> Vector2" where
  \<comment> \<open>\<open>operator*(double)\<close>\<close>
  "vec_scale a k = \<lparr>vx = vx a * k, vy = vy a * k\<rparr>"

definition vec_length :: "Vector2 \<Rightarrow> real" where
  "vec_length a = sqrt (vx a * vx a + vy a * vy a)"

definition normalized :: "Vector2 \<Rightarrow> Vector2" where
  "normalized a =
     (let len = vec_length a
      in if len = 0 then \<lparr>vx = 0, vy = 0\<rparr> else \<lparr>vx = vx a / len, vy = vy a / len\<rparr>)"

section \<open>World.h\<close>

record World =
  gravity :: Vector2
  width :: real
  height :: real

section \<open>Drone.h, Drone.cpp\<close>

record DroneParams =
  mass :: real
  maxThrust :: real
  maxSpeed :: real

record Drone =
  mId :: int
  mParameters :: DroneParams
  mPosition :: Vector2
  mVelocity :: Vector2
  mThrust :: Vector2

definition new_Drone :: "int \<Rightarrow> DroneParams \<Rightarrow> Vector2 \<Rightarrow> Drone" where
  \<comment> \<open>the constructor \<open>Drone::Drone\<close>\<close>
  "new_Drone i parameters startPos =
     \<lparr>mId = i, mParameters = parameters, mPosition = startPos,
      mVelocity = \<lparr>vx = 0, vy = 0\<rparr>, mThrust = \<lparr>vx = 0, vy = 0\<rparr>\<rparr>"

definition setThrustDirection :: "Drone \<Rightarrow> Vector2 \<Rightarrow> Drone" where
  "setThrustDirection d direction =
     (let dirNorm = normalized direction
      in d\<lparr>mThrust := vec_scale dirNorm (maxThrust (mParameters d))\<rparr>)"

definition setThrustForce :: "Drone \<Rightarrow> Vector2 \<Rightarrow> Drone" where
  "setThrustForce d force =
     (let mag = vec_length force
      in if mag = 0 \<or> mag \<le> maxThrust (mParameters d)
         then d\<lparr>mThrust := force\<rparr>
         else d\<lparr>mThrust := vec_scale force (maxThrust (mParameters d) / mag)\<rparr>)"

definition clearThrust :: "Drone \<Rightarrow> Drone" where
  "clearThrust d = d\<lparr>mThrust := \<lparr>vx = 0, vy = 0\<rparr>\<rparr>"

text \<open>
  \<open>Drone::update\<close> in two parts: \<open>integrate\<close> is the body up to and including the
  position update (lines 97 to 111), \<open>enforceBounds\<close> is the four boundary statements
  (lines 114 to 117), executed in the order of the source.
\<close>

definition integrate :: "Drone \<Rightarrow> real \<Rightarrow> World \<Rightarrow> Drone" where
  "integrate d dt world =
     (let gravityForce = vec_scale (gravity world) (mass (mParameters d));
          totalForce = vec_add (mThrust d) gravityForce;
          acceleration = vec_scale totalForce (1 / mass (mParameters d));
          v1 = vec_add (mVelocity d) (vec_scale acceleration dt);
          speed = vec_length v1;
          v2 = (if maxSpeed (mParameters d) > 0 \<and> speed > maxSpeed (mParameters d)
                then vec_scale v1 (maxSpeed (mParameters d) / speed) else v1)
      in d\<lparr>mVelocity := v2, mPosition := vec_add (mPosition d) (vec_scale v2 dt)\<rparr>)"

definition enforceBounds :: "Drone \<Rightarrow> World \<Rightarrow> Drone" where
  "enforceBounds d world =
     (let d1 = (if vx (mPosition d) < 0
                then d\<lparr>mPosition := (mPosition d)\<lparr>vx := 0\<rparr>,
                       mVelocity := (mVelocity d)\<lparr>vx := 0\<rparr>\<rparr> else d);
          d2 = (if vy (mPosition d1) < 0
                then d1\<lparr>mPosition := (mPosition d1)\<lparr>vy := 0\<rparr>,
                        mVelocity := (mVelocity d1)\<lparr>vy := 0\<rparr>\<rparr> else d1);
          d3 = (if vx (mPosition d2) > width world
                then d2\<lparr>mPosition := (mPosition d2)\<lparr>vx := width world\<rparr>,
                        mVelocity := (mVelocity d2)\<lparr>vx := 0\<rparr>\<rparr> else d2);
          d4 = (if vy (mPosition d3) > height world
                then d3\<lparr>mPosition := (mPosition d3)\<lparr>vy := height world\<rparr>,
                        mVelocity := (mVelocity d3)\<lparr>vy := 0\<rparr>\<rparr> else d3)
      in d4)"

definition update :: "Drone \<Rightarrow> real \<Rightarrow> World \<Rightarrow> Drone" where
  "update d dt world = enforceBounds (integrate d dt world) world"

section \<open>Message.h, Node.h\<close>

record Message =
  msg_id :: int
  msg_from :: string
  msg_to :: string
  payload :: string
  cipherText :: string
  sendTime :: real
  deliverTime :: real
  delivered :: bool
  dropped :: bool

record ReceivedMessage =
  rm_id :: int
  rm_from :: string
  rm_payload :: string
  timeReceived :: real
  latency :: real

record Node =
  node_name :: string
  inbox :: "ReceivedMessage list"

definition new_Node :: "string \<Rightarrow> Node" where
  "new_Node nm = \<lparr>node_name = nm, inbox = []\<rparr>"

definition onMessageReceived :: "Node \<Rightarrow> int \<Rightarrow> string \<Rightarrow> string \<Rightarrow> real \<Rightarrow> real \<Rightarrow> Node" where
  "onMessageReceived nd i sender text t l =
     nd\<lparr>inbox := inbox nd @
       [\<lparr>rm_id = i, rm_from = sender, rm_payload = text, timeReceived = t, latency = l\<rparr>]\<rparr>"

section \<open>Network.h\<close>

text \<open>
  The two output channels of the network are part of its state. \<open>console\<close> is the
  sequence of lines written to \<open>std::cout\<close> by \<open>sendMessage\<close> and \<open>deliver\<close>, one
  constructor per tag, with the values the line prints. \<open>logFile\<close> is the sequence of
  rows written to the log file after its header line.
\<close>

datatype console_line =
    DropScheduledLine real string string int nat
      \<comment> \<open>time, from, to, msgId, length of the cipher text\<close>
  | SendLine real string string int nat
  | DeliveryFailedLine real string int
      \<comment> \<open>time, unknown node, msgId\<close>
  | DeliverLine real string string int real string
      \<comment> \<open>time, from, to, msgId, latency, plaintext\<close>

datatype log_event = Ev_drop_scheduled | Ev_send | Ev_deliver

record log_row =
  row_event :: log_event
  row_time :: real
  row_id :: int
  row_from :: string
  row_to :: string
  row_latency :: real
  row_dropped :: int
  row_payload :: string

text \<open>
  The generator \<open>rng\<close> (a \<open>std::mt19937\<close> seeded from the random device) is the
  sequence of canonical values in \<open>[0,1)\<close> that it is going to produce: a draw reads the
  head of the sequence and leaves the tail. \<open>std::uniform_real_distribution(a, b)\<close> maps
  a canonical value \<open>u\<close> to \<open>a + (b - a) * u\<close>. An entry of \<open>nodeIndex\<close> is a
  position in \<open>nodes\<close>, and the pointer that \<open>getNode\<close> returns is that position.
\<close>

record Network =
  baseLatency :: real
  jitter :: real
  dropProb :: real
  rng :: "nat \<Rightarrow> real"
  nodes :: "Node list"
  nodeIndex :: "string \<rightharpoonup> nat"
  inTransit :: "Message list"
  droppedMessages :: "Message list"
  nextMessageId :: int
  deliveredCount :: int
  totalLatency :: real
  console :: "console_line list"
  logFile :: "log_row list"

definition encryptionKey :: string where
  "encryptionKey = ''USMC-COMMS-KEY''"

definition new_Network :: "real \<Rightarrow> real \<Rightarrow> real \<Rightarrow> (nat \<Rightarrow> real) \<Rightarrow> Network" where
  \<comment> \<open>the constructor; the last argument is the seeded generator\<close>
  "new_Network baseLat jit dropProbability r =
     \<lparr>baseLatency = baseLat, jitter = jit, dropProb = dropProbability, rng = r,
      nodes = [], nodeIndex = Map.empty, inTransit = [], droppedMessages = [],
      nextMessageId = 1, deliveredCount = 0, totalLatency = 0,
      console = [], logFile = []\<rparr>"

definition addNode :: "Network \<Rightarrow> string \<Rightarrow> Network" where
  "addNode n nm =
     (let n1 = n\<lparr>nodes := nodes n @ [new_Node nm]\<rparr>
      in n1\<lparr>nodeIndex := (nodeIndex n1)(nm \<mapsto> length (nodes n1) - 1)\<rparr>)"

definition getNode :: "Network \<Rightarrow> string \<Rightarrow> nat option" where
  "getNode n nm = nodeIndex n nm"

definition uniform_real :: "real \<Rightarrow> real \<Rightarrow> Network \<Rightarrow> real \<times> Network" where
  "uniform_real a b n = (a + (b - a) * rng n 0, n\<lparr>rng := (\<lambda>i. rng n (Suc i))\<rparr>)"

definition sampleLatency :: "Network \<Rightarrow> real \<times> Network" where
  "sampleLatency n =
     (let (j, n1) = uniform_real (- jitter n) (jitter n) n in (baseLatency n1 + j, n1))"

definition xor_char :: "char \<Rightarrow> char \<Rightarrow> char" where
  "xor_char a b = char_of ((of_char a :: nat) XOR of_char b)"

definition xorCipher :: "string \<Rightarrow> string \<Rightarrow> string" where
  "xorCipher text key =
     map (\<lambda>i. xor_char (text ! i) (key ! (i mod length key))) [0..<length text]"

definition sendMessage :: "Network \<Rightarrow> string \<Rightarrow> string \<Rightarrow> string \<Rightarrow> real \<Rightarrow> Network" where
  "sendMessage n sender recipient text currentTime =
     (let msg = \<lparr>msg_id = nextMessageId n, msg_from = sender, msg_to = recipient,
                 payload = text, cipherText = xorCipher text encryptionKey,
                 sendTime = currentTime, deliverTime = 0, delivered = False, dropped = False\<rparr>;
          n1 = n\<lparr>nextMessageId := nextMessageId n + 1\<rparr>;
          (u, n2) = uniform_real 0 1 n1
      in if u < dropProb n2
         then
           (let (l, n3) = sampleLatency n2;
                msg1 = msg\<lparr>dropped := True, deliverTime := currentTime + l\<rparr>
            in n3\<lparr>droppedMessages := droppedMessages n3 @ [msg1],
                  console := console n3 @
                    [DropScheduledLine currentTime sender recipient (msg_id msg1)
                       (length (cipherText msg1))],
                  logFile := logFile n3 @
                    [\<lparr>row_event = Ev_drop_scheduled, row_time = currentTime,
                      row_id = msg_id msg1, row_from = msg_from msg1, row_to = msg_to msg1,
                      row_latency = 0, row_dropped = 1, row_payload = text\<rparr>]\<rparr>)
         else
           (let (l, n3) = sampleLatency n2;
                msg1 = msg\<lparr>dropped := False, deliverTime := currentTime + l\<rparr>
            in n3\<lparr>inTransit := inTransit n3 @ [msg1],
                  console := console n3 @
                    [SendLine currentTime sender recipient (msg_id msg1)
                       (length (cipherText msg1))],
                  logFile := logFile n3 @
                    [\<lparr>row_event = Ev_send, row_time = currentTime,
                      row_id = msg_id msg1, row_from = msg_from msg1, row_to = msg_to msg1,
                      row_latency = 0, row_dropped = 0, row_payload = text\<rparr>]\<rparr>))"

definition deliver :: "Network \<Rightarrow> Message \<Rightarrow> real \<Rightarrow> Network" where
  "deliver n msg currentTime =
     (case getNode n (msg_to msg) of
        None \<Rightarrow>
          n\<lparr>console := console n @ [DeliveryFailedLine currentTime (msg_to msg) (msg_id msg)]\<rparr>
      | Some dest \<Rightarrow>
          (let l = deliverTime msg - sendTime msg;
               n1 = n\<lparr>deliveredCount := deliveredCount n + 1\<rparr>;
               n2 = n1\<lparr>totalLatency := totalLatency n1 + l\<rparr>;
               plaintext = xorCipher (cipherText msg) encryptionKey;
               n3 = n2\<lparr>nodes := (nodes n2)
                      [dest := onMessageReceived (nodes n2 ! dest) (msg_id msg) (msg_from msg)
                                 plaintext (deliverTime msg) l]\<rparr>
           in n3\<lparr>console := console n3 @
                    [DeliverLine currentTime (msg_from msg) (msg_to msg) (msg_id msg) l plaintext],
                  logFile := logFile n3 @
                    [\<lparr>row_event = Ev_deliver, row_time = currentTime, row_id = msg_id msg,
                      row_from = msg_from msg, row_to = msg_to msg, row_latency = l,
                      row_dropped = 0, row_payload = plaintext\<rparr>]\<rparr>))"

text \<open>
  The loop of \<open>Network::step\<close> over \<open>inTransit\<close>: the third argument is the part of
  the vector still to visit, the fourth is the local vector \<open>remaining\<close>.
\<close>

fun step_loop :: "Network \<Rightarrow> real \<Rightarrow> Message list \<Rightarrow> Message list \<Rightarrow> Network \<times> Message list" where
  "step_loop n currentTime [] remaining = (n, remaining)"
| "step_loop n currentTime (msg # rest) remaining =
     (if deliverTime msg \<le> currentTime
      then step_loop (deliver n msg currentTime) currentTime rest remaining
      else step_loop n currentTime rest (remaining @ [msg]))"

definition net_step :: "Network \<Rightarrow> real \<Rightarrow> Network" where
  \<comment> \<open>\<open>Network::step\<close>\<close>
  "net_step n currentTime =
     (let (n1, remaining) = step_loop n currentTime (inTransit n) []
      in n1\<lparr>inTransit := remaining\<rparr>)"

text \<open>What \<open>printSummary\<close> prints, as a value.\<close>

record summary =
  sum_finalTime :: real
  sum_delivered :: int
  sum_dropped :: nat
  sum_avgLatency :: "real option"
  sum_inboxes :: "(string \<times> ReceivedMessage list) list"

definition printSummary :: "Network \<Rightarrow> real \<Rightarrow> summary" where
  "printSummary n finalTime =
     \<lparr>sum_finalTime = finalTime,
      sum_delivered = deliveredCount n,
      sum_dropped = length (droppedMessages n),
      sum_avgLatency =
        (if deliveredCount n > 0 then Some (totalLatency n / real_of_int (deliveredCount n))
         else None),
      sum_inboxes = map (\<lambda>nd. (node_name nd, inbox nd)) (nodes n)\<rparr>"

section \<open>Simulator.h, Simulator.cpp\<close>

record Simulator =
  mWorld :: World
  mDrones :: "Drone list"
  mComms :: Network
  mSimTime :: real
  mNextReportTime :: real
  mReportInterval :: real

definition new_Simulator :: "World \<Rightarrow> (nat \<Rightarrow> real) \<Rightarrow> Simulator" where
  \<comment> \<open>the constructor; the second argument is the generator of the network\<close>
  "new_Simulator world r =
     \<lparr>mWorld = world, mDrones = [],
      mComms = addNode (new_Network (5 / 10) (2 / 10) (15 / 100) r) ''HQ'',
      mSimTime = 0, mNextReportTime = 5 / 10, mReportInterval = 5 / 10\<rparr>"

text \<open>\<open>std::to_string\<close> on an \<open>int\<close>: the decimal digits, with a minus sign below zero.\<close>

fun digits :: "nat \<Rightarrow> string" where
  "digits k = (if k < 10 then [char_of (48 + k)]
               else digits (k div 10) @ [char_of (48 + k mod 10)])"

declare digits.simps [simp del]

definition to_string :: "int \<Rightarrow> string" where
  "to_string i = (if i < 0 then CHR ''-'' # digits (nat (- i)) else digits (nat i))"

definition addDrone :: "Simulator \<Rightarrow> DroneParams \<Rightarrow> Vector2 \<Rightarrow> int \<times> Simulator" where
  "addDrone s parameters startPos =
     (let i = int (length (mDrones s));
          s1 = s\<lparr>mDrones := mDrones s @ [new_Drone i parameters startPos]\<rparr>;
          nodeName = ''Drone'' @ to_string i
      in (i, s1\<lparr>mComms := addNode (mComms s1) nodeName\<rparr>))"

definition setDroneThrustDirection :: "Simulator \<Rightarrow> int \<Rightarrow> Vector2 \<Rightarrow> Simulator" where
  "setDroneThrustDirection s droneId direction =
     (if droneId \<ge> 0 \<and> droneId < int (length (mDrones s))
      then s\<lparr>mDrones := (mDrones s)
               [nat droneId := setThrustDirection (mDrones s ! nat droneId) direction]\<rparr>
      else s)"

definition setDroneThrustForce :: "Simulator \<Rightarrow> int \<Rightarrow> Vector2 \<Rightarrow> Simulator" where
  "setDroneThrustForce s droneId force =
     (if droneId \<ge> 0 \<and> droneId < int (length (mDrones s))
      then s\<lparr>mDrones := (mDrones s)
               [nat droneId := setThrustForce (mDrones s ! nat droneId) force]\<rparr>
      else s)"

definition clearDroneThrust :: "Simulator \<Rightarrow> int \<Rightarrow> Simulator" where
  "clearDroneThrust s droneId =
     (if droneId \<ge> 0 \<and> droneId < int (length (mDrones s))
      then s\<lparr>mDrones := (mDrones s)[nat droneId := clearThrust (mDrones s ! nat droneId)]\<rparr>
      else s)"

text \<open>
  The telemetry text prints four \<open>double\<close> values with \<open>std::fixed\<close> and
  \<open>std::setprecision(2)\<close>. That formatting is the parameter \<open>fmt\<close> of the functions
  below.
\<close>

definition statusPayload :: "(real \<Rightarrow> string) \<Rightarrow> Drone \<Rightarrow> string" where
  "statusPayload fmt d =
     ''STATUS pos=('' @ fmt (vx (mPosition d)) @ '','' @ fmt (vy (mPosition d))
       @ '') vel=('' @ fmt (vx (mVelocity d)) @ '','' @ fmt (vy (mVelocity d)) @ '')''"

definition sendDroneStatus :: "(real \<Rightarrow> string) \<Rightarrow> Network \<Rightarrow> Drone \<Rightarrow> real \<Rightarrow> Network" where
  \<comment> \<open>acts on \<open>mComms\<close> only, which is passed and returned\<close>
  "sendDroneStatus fmt c d currentTime =
     (let text = statusPayload fmt d;
          fromName = ''Drone'' @ to_string (mId d)
      in sendMessage c fromName ''HQ'' text currentTime)"

definition sim_step :: "(real \<Rightarrow> string) \<Rightarrow> Simulator \<Rightarrow> real \<Rightarrow> Simulator" where
  \<comment> \<open>\<open>Simulator::step\<close>\<close>
  "sim_step fmt s dt =
     (let s1 = s\<lparr>mSimTime := mSimTime s + dt\<rparr>;
          s2 = s1\<lparr>mDrones := map (\<lambda>d. update d dt (mWorld s1)) (mDrones s1)\<rparr>;
          s3 = (if mSimTime s2 \<ge> mNextReportTime s2
                then
                  (let c = foldl (\<lambda>c d. sendDroneStatus fmt c d (mSimTime s2))
                             (mComms s2) (mDrones s2)
                   in s2\<lparr>mComms := c,
                         mNextReportTime := mNextReportTime s2 + mReportInterval s2\<rparr>)
                else s2)
      in s3\<lparr>mComms := net_step (mComms s3) (mSimTime s3)\<rparr>)"

definition printCommsSummary :: "Simulator \<Rightarrow> summary" where
  "printCommsSummary s = printSummary (mComms s) (mSimTime s)"

section \<open>Notions used in the statements\<close>

text \<open>
  The record that \<open>deliver\<close> appends to the inbox of the destination for a message, the
  console line it prints and the row it writes to the log file.
\<close>

definition receipt :: "Message \<Rightarrow> ReceivedMessage" where
  "receipt msg =
     \<lparr>rm_id = msg_id msg, rm_from = msg_from msg,
      rm_payload = xorCipher (cipherText msg) encryptionKey,
      timeReceived = deliverTime msg, latency = deliverTime msg - sendTime msg\<rparr>"

definition deliverLine :: "Network \<Rightarrow> real \<Rightarrow> Message \<Rightarrow> console_line" where
  "deliverLine n t msg =
     (case nodeIndex n (msg_to msg) of
        None \<Rightarrow> DeliveryFailedLine t (msg_to msg) (msg_id msg)
      | Some dest \<Rightarrow> DeliverLine t (msg_from msg) (msg_to msg) (msg_id msg)
          (deliverTime msg - sendTime msg) (xorCipher (cipherText msg) encryptionKey))"

definition deliverRow :: "real \<Rightarrow> Message \<Rightarrow> log_row" where
  "deliverRow t msg =
     \<lparr>row_event = Ev_deliver, row_time = t, row_id = msg_id msg, row_from = msg_from msg,
      row_to = msg_to msg, row_latency = deliverTime msg - sendTime msg, row_dropped = 0,
      row_payload = xorCipher (cipherText msg) encryptionKey\<rparr>"

text \<open>
  The message that a call of \<open>sendMessage\<close> stores: the last element of
  \<open>droppedMessages\<close> when that vector has grown, the last element of \<open>inTransit\<close>
  otherwise. \<open>stored\<close> is the same record written out field by field.
\<close>

definition sentMessage :: "Network \<Rightarrow> string \<Rightarrow> string \<Rightarrow> string \<Rightarrow> real \<Rightarrow> Message" where
  "sentMessage n sender recipient text currentTime =
     (let n1 = sendMessage n sender recipient text currentTime
      in if length (droppedMessages n1) > length (droppedMessages n)
         then last (droppedMessages n1) else last (inTransit n1))"

definition stored :: "Network \<Rightarrow> string \<Rightarrow> string \<Rightarrow> string \<Rightarrow> real \<Rightarrow> Message" where
  "stored n s r text t =
     \<lparr>msg_id = nextMessageId n, msg_from = s, msg_to = r, payload = text,
      cipherText = xorCipher text encryptionKey, sendTime = t,
      deliverTime = t + (baseLatency n + (- jitter n + (jitter n - - jitter n) * rng n 1)),
      delivered = False, dropped = (rng n 0 < dropProb n)\<rparr>"

text \<open>
  The number of \<open>[DELIVERY FAILED]\<close> lines on the console: the deliveries whose
  recipient lookup failed.
\<close>

fun isDeliveryFailed :: "console_line \<Rightarrow> bool" where
  "isDeliveryFailed (DeliveryFailedLine t r i) = True"
| "isDeliveryFailed line = False"

definition deliveryFailures :: "Network \<Rightarrow> nat" where
  "deliveryFailures n = length (filter isDeliveryFailed (console n))"

text \<open>
  A sequence of calls of \<open>sendMessage\<close> and \<open>step\<close> on a network, the number of
  sends in it, the messages its sends store, and the condition that every \<open>step\<close> of
  the sequence has a time below a given delivery time.
\<close>

datatype call = Send string string string real | Advance real

fun run :: "Network \<Rightarrow> call list \<Rightarrow> Network" where
  "run n [] = n"
| "run n (Send sender recipient text t # cs) = run (sendMessage n sender recipient text t) cs"
| "run n (Advance now # cs) = run (net_step n now) cs"

fun sends :: "call list \<Rightarrow> nat" where
  "sends [] = 0"
| "sends (Send sender recipient text t # cs) = Suc (sends cs)"
| "sends (Advance now # cs) = sends cs"

fun sentMessages :: "Network \<Rightarrow> call list \<Rightarrow> Message list" where
  "sentMessages n [] = []"
| "sentMessages n (Send sender recipient text t # cs) =
     sentMessage n sender recipient text t # sentMessages (sendMessage n sender recipient text t) cs"
| "sentMessages n (Advance now # cs) = sentMessages (net_step n now) cs"

fun advancesBefore :: "real \<Rightarrow> call list \<Rightarrow> bool" where
  "advancesBefore d [] = True"
| "advancesBefore d (Send sender recipient text t # cs) = advancesBefore d cs"
| "advancesBefore d (Advance now # cs) = (now < d \<and> advancesBefore d cs)"

text \<open>
  Networks and messages for the examples: a network with latency 1, no jitter and no
  drops with the nodes A and B; the same after three sends, one of them to the
  unregistered name Ghost; and a network that drops the first message it is given.
\<close>

definition example_net :: Network where
  "example_net = addNode (addNode (new_Network 1 0 0 (\<lambda>i. 0)) ''A'') ''B''"

definition example_busy :: Network where
  "example_busy =
     sendMessage (sendMessage (sendMessage example_net ''A'' ''B'' ''hi'' 0)
       ''A'' ''Ghost'' ''lost'' 0) ''A'' ''B'' ''yo'' 5"

definition example_lossy :: Network where
  "example_lossy = addNode (addNode (new_Network 1 0 (1 / 2) (\<lambda>i. if i < 2 then 0 else 9 / 10)) ''A'') ''B''"

definition example_hi :: Message where
  "example_hi = \<lparr>msg_id = 1, msg_from = ''A'', msg_to = ''B'', payload = ''hi'',
      cipherText = xorCipher ''hi'' encryptionKey, sendTime = 0, deliverTime = 1,
      delivered = False, dropped = False\<rparr>"

definition example_lost :: Message where
  "example_lost = \<lparr>msg_id = 2, msg_from = ''A'', msg_to = ''Ghost'', payload = ''lost'',
      cipherText = xorCipher ''lost'' encryptionKey, sendTime = 0, deliverTime = 1,
      delivered = False, dropped = False\<rparr>"

definition example_yo :: Message where
  "example_yo = \<lparr>msg_id = 3, msg_from = ''A'', msg_to = ''B'', payload = ''yo'',
      cipherText = xorCipher ''yo'' encryptionKey, sendTime = 5, deliverTime = 6,
      delivered = False, dropped = False\<rparr>"

text \<open>
  Every entry of \<open>nodeIndex\<close> is a position in \<open>nodes\<close>. The constructor establishes
  this and \<open>addNode\<close>, \<open>sendMessage\<close> and \<open>step\<close> keep it.
\<close>

definition index_ok :: "Network \<Rightarrow> bool" where
  "index_ok n \<longleftrightarrow> (\<forall>nm i. nodeIndex n nm = Some i \<longrightarrow> i < length (nodes n))"

text \<open>
  The call of the network that \<open>sendDroneStatus\<close> makes for a drone.
\<close>

definition telemetry :: "(real \<Rightarrow> string) \<Rightarrow> real \<Rightarrow> Drone \<Rightarrow> call" where
  "telemetry fmt t d = Send (''Drone'' @ to_string (mId d)) ''HQ'' (statusPayload fmt d) t"

text \<open>
  A simulator for the examples: the constructor and one \<open>addDrone\<close>, with a generator
  that always yields one half, and a formatting that prints every number as 0.00.
\<close>

definition example_fmt :: "real \<Rightarrow> string" where
  "example_fmt v = ''0.00''"

definition example_sim :: Simulator where
  "example_sim =
     snd (addDrone
       (new_Simulator \<lparr>gravity = \<lparr>vx = 0, vy = - 10\<rparr>, width = 100, height = 100\<rparr> (\<lambda>i. 1 / 2))
       \<lparr>mass = 1, maxThrust = 10, maxSpeed = 0\<rparr> \<lparr>vx = 50, vy = 50\<rparr>)"

section \<open>Drone.cpp in double arithmetic\<close>

text \<open>
  The second embedding of \<open>Drone.cpp\<close>. A \<open>double\<close> is a finite real, the negative
  zero, one of the two infinities or NaN; \<open>Fin 0\<close> is the positive zero. The
  comparisons \<open><\<close>, \<open><=\<close> and \<open>==\<close> of the source are \<open>dless\<close>, \<open>dle\<close> and
  \<open>deq\<close>: every comparison with NaN is false, the two zeros are equal, and the
  infinities lie below and above every finite value.
\<close>

datatype double = Fin real | NegZero | PInf | NInf | NaN

fun ord_key :: "double \<Rightarrow> (int \<times> real) option" where
  "ord_key NaN = None"
| "ord_key NInf = Some (- 1, 0)"
| "ord_key (Fin r) = Some (0, r)"
| "ord_key NegZero = Some (0, 0)"
| "ord_key PInf = Some (1, 0)"

definition dless :: "double \<Rightarrow> double \<Rightarrow> bool" where
  \<comment> \<open>\<open>a < b\<close>; \<open>a > b\<close> is \<open>dless b a\<close>\<close>
  "dless a b =
     (case (ord_key a, ord_key b) of
        (Some (k, x), Some (l, y)) \<Rightarrow> k < l \<or> (k = l \<and> x < y)
      | _ \<Rightarrow> False)"

definition dle :: "double \<Rightarrow> double \<Rightarrow> bool" where
  \<comment> \<open>\<open>a <= b\<close>\<close>
  "dle a b =
     (case (ord_key a, ord_key b) of
        (Some (k, x), Some (l, y)) \<Rightarrow> k < l \<or> (k = l \<and> x \<le> y)
      | _ \<Rightarrow> False)"

definition deq :: "double \<Rightarrow> double \<Rightarrow> bool" where
  \<comment> \<open>\<open>a == b\<close>\<close>
  "deq a b =
     (case (ord_key a, ord_key b) of
        (Some (k, x), Some (l, y)) \<Rightarrow> k = l \<and> x = y
      | _ \<Rightarrow> False)"

text \<open>
  The operations \<open>+\<close>, \<open>*\<close>, \<open>/\<close> and \<open>std::sqrt\<close> on \<open>double\<close> are the four
  fields of a record that the functions below take as their first argument. A statement
  made for every such record holds whatever the four operations return, so it holds
  for the arithmetic of any target, with any rounding.
\<close>

record arith =
  fadd :: "double \<Rightarrow> double \<Rightarrow> double"
  fmul :: "double \<Rightarrow> double \<Rightarrow> double"
  fdiv :: "double \<Rightarrow> double \<Rightarrow> double"
  fsqrt :: "double \<Rightarrow> double"

text \<open>
  \<open>Vector2\<close>, \<open>World\<close>, \<open>DroneParams\<close> and \<open>Drone\<close> with \<open>double\<close> fields, and
  the operators of \<open>Vector2.h\<close> that \<open>Drone.cpp\<close> uses: \<open>operator+\<close> (also
  \<open>operator+=\<close>), \<open>operator*(double)\<close> and \<open>length\<close>.
\<close>

record Vector2_d =
  x_d :: double
  y_d :: double

record World_d =
  gravity_d :: Vector2_d
  width_d :: double
  height_d :: double

record DroneParams_d =
  mass_d :: double
  maxThrust_d :: double
  maxSpeed_d :: double

record Drone_d =
  mId_d :: int
  mParameters_d :: DroneParams_d
  mPosition_d :: Vector2_d
  mVelocity_d :: Vector2_d
  mThrust_d :: Vector2_d

definition vec_add_d :: "arith \<Rightarrow> Vector2_d \<Rightarrow> Vector2_d \<Rightarrow> Vector2_d" where
  "vec_add_d A a b = \<lparr>x_d = fadd A (x_d a) (x_d b), y_d = fadd A (y_d a) (y_d b)\<rparr>"

definition vec_scale_d :: "arith \<Rightarrow> Vector2_d \<Rightarrow> double \<Rightarrow> Vector2_d" where
  "vec_scale_d A a k = \<lparr>x_d = fmul A (x_d a) k, y_d = fmul A (y_d a) k\<rparr>"

definition vec_length_d :: "arith \<Rightarrow> Vector2_d \<Rightarrow> double" where
  "vec_length_d A a = fsqrt A (fadd A (fmul A (x_d a) (x_d a)) (fmul A (y_d a) (y_d a)))"


definition integrate_d :: "arith \<Rightarrow> Drone_d \<Rightarrow> double \<Rightarrow> World_d \<Rightarrow> Drone_d" where
  "integrate_d A d dt world =
     (let gravityForce = vec_scale_d A (gravity_d world) (mass_d (mParameters_d d));
          totalForce = vec_add_d A (mThrust_d d) gravityForce;
          acceleration = vec_scale_d A totalForce (fdiv A (Fin 1) (mass_d (mParameters_d d)));
          v1 = vec_add_d A (mVelocity_d d) (vec_scale_d A acceleration dt);
          speed = vec_length_d A v1;
          v2 = (if dless (Fin 0) (maxSpeed_d (mParameters_d d))
                   \<and> dless (maxSpeed_d (mParameters_d d)) speed
                then vec_scale_d A v1 (fdiv A (maxSpeed_d (mParameters_d d)) speed) else v1)
      in d\<lparr>mVelocity_d := v2,
            mPosition_d := vec_add_d A (mPosition_d d) (vec_scale_d A v2 dt)\<rparr>)"

definition enforceBounds_d :: "Drone_d \<Rightarrow> World_d \<Rightarrow> Drone_d" where
  "enforceBounds_d d world =
     (let d1 = (if dless (x_d (mPosition_d d)) (Fin 0)
                then d\<lparr>mPosition_d := (mPosition_d d)\<lparr>x_d := Fin 0\<rparr>,
                       mVelocity_d := (mVelocity_d d)\<lparr>x_d := Fin 0\<rparr>\<rparr> else d);
          d2 = (if dless (y_d (mPosition_d d1)) (Fin 0)
                then d1\<lparr>mPosition_d := (mPosition_d d1)\<lparr>y_d := Fin 0\<rparr>,
                        mVelocity_d := (mVelocity_d d1)\<lparr>y_d := Fin 0\<rparr>\<rparr> else d1);
          d3 = (if dless (width_d world) (x_d (mPosition_d d2))
                then d2\<lparr>mPosition_d := (mPosition_d d2)\<lparr>x_d := width_d world\<rparr>,
                        mVelocity_d := (mVelocity_d d2)\<lparr>x_d := Fin 0\<rparr>\<rparr> else d2);
          d4 = (if dless (height_d world) (y_d (mPosition_d d3))
                then d3\<lparr>mPosition_d := (mPosition_d d3)\<lparr>y_d := height_d world\<rparr>,
                        mVelocity_d := (mVelocity_d d3)\<lparr>y_d := Fin 0\<rparr>\<rparr> else d3)
      in d4)"

definition update_d :: "arith \<Rightarrow> Drone_d \<Rightarrow> double \<Rightarrow> World_d \<Rightarrow> Drone_d" where
  "update_d A d dt world = enforceBounds_d (integrate_d A d dt world) world"

text \<open>
  Two arithmetics. \<open>ieee rnd\<close> is IEEE 754 arithmetic on the special values, with the
  real result of an operation on finite values passed to \<open>rnd\<close> (the sign of a zero
  product or quotient is the exclusive or of the signs of the operands). \<open>round64\<close> is
  rounding to the nearest binary64 number, ties to even: \<open>e\<close> is the exponent of
  \<open>x\<close>, not below the smallest normal exponent \<open>-1022\<close>, \<open>u = 2 powi (e - 52)\<close> is the
  spacing of the binary64 numbers at \<open>x\<close>, and a result of magnitude \<open>2 ^ 1024\<close>
  overflows to an infinity. \<open>binary64\<close> is the arithmetic of a C++ \<open>double\<close> on
  the usual targets; \<open>exact\<close> never rounds, overflows or underflows.
\<close>

fun is_neg :: "double \<Rightarrow> bool" where
  "is_neg (Fin r) = (r < 0)"
| "is_neg NegZero = True"
| "is_neg NInf = True"
| "is_neg PInf = False"
| "is_neg NaN = False"

fun is_zero :: "double \<Rightarrow> bool" where
  "is_zero (Fin r) = (r = 0)"
| "is_zero NegZero = True"
| "is_zero d = False"

fun is_inf :: "double \<Rightarrow> bool" where
  "is_inf PInf = True"
| "is_inf NInf = True"
| "is_inf d = False"

fun finite_val :: "double \<Rightarrow> real" where
  "finite_val (Fin r) = r"
| "finite_val d = 0"

definition zero_of :: "bool \<Rightarrow> double" where
  "zero_of neg = (if neg then NegZero else Fin 0)"

definition inf_of :: "bool \<Rightarrow> double" where
  "inf_of neg = (if neg then NInf else PInf)"

definition with_sign :: "bool \<Rightarrow> double \<Rightarrow> double" where
  "with_sign neg d = (if d = Fin 0 \<and> neg then NegZero else d)"

definition ieee_add :: "(real \<Rightarrow> double) \<Rightarrow> double \<Rightarrow> double \<Rightarrow> double" where
  "ieee_add rnd a b =
     (if a = NaN \<or> b = NaN then NaN
      else if is_inf a then (if is_inf b \<and> is_neg a \<noteq> is_neg b then NaN else a)
      else if is_inf b then b
      else if finite_val a + finite_val b = 0 then zero_of (is_neg a \<and> is_neg b)
      else rnd (finite_val a + finite_val b))"

definition ieee_mul :: "(real \<Rightarrow> double) \<Rightarrow> double \<Rightarrow> double \<Rightarrow> double" where
  "ieee_mul rnd a b =
     (if a = NaN \<or> b = NaN then NaN
      else if is_inf a \<or> is_inf b
      then (if is_zero a \<or> is_zero b then NaN else inf_of (is_neg a \<noteq> is_neg b))
      else with_sign (is_neg a \<noteq> is_neg b) (rnd (finite_val a * finite_val b)))"

definition ieee_div :: "(real \<Rightarrow> double) \<Rightarrow> double \<Rightarrow> double \<Rightarrow> double" where
  "ieee_div rnd a b =
     (if a = NaN \<or> b = NaN then NaN
      else if is_inf a then (if is_inf b then NaN else inf_of (is_neg a \<noteq> is_neg b))
      else if is_inf b then zero_of (is_neg a \<noteq> is_neg b)
      else if is_zero b then (if is_zero a then NaN else inf_of (is_neg a \<noteq> is_neg b))
      else with_sign (is_neg a \<noteq> is_neg b) (rnd (finite_val a / finite_val b)))"

definition ieee_sqrt :: "(real \<Rightarrow> double) \<Rightarrow> double \<Rightarrow> double" where
  "ieee_sqrt rnd a =
     (case a of
        NaN \<Rightarrow> NaN
      | NegZero \<Rightarrow> NegZero
      | PInf \<Rightarrow> PInf
      | NInf \<Rightarrow> NaN
      | Fin r \<Rightarrow> if r < 0 then NaN else rnd (sqrt r))"

definition ieee :: "(real \<Rightarrow> double) \<Rightarrow> arith" where
  "ieee rnd = \<lparr>fadd = ieee_add rnd, fmul = ieee_mul rnd, fdiv = ieee_div rnd, fsqrt = ieee_sqrt rnd\<rparr>"

definition rhe :: "real \<Rightarrow> int" where
  "rhe x =
     (let f = \<lfloor>x\<rfloor>
      in if x - of_int f < 1 / 2 then f
         else if x - of_int f > 1 / 2 then f + 1
         else if even f then f else f + 1)"

definition round64 :: "real \<Rightarrow> double" where
  "round64 x =
     (if x = 0 then Fin 0
      else
        (let e = max \<lfloor>log 2 \<bar>x\<bar>\<rfloor> (- 1022);
             u = 2 powi (e - 52);
             r = of_int (rhe (\<bar>x\<bar> / u)) * u
         in if 2 ^ 1024 \<le> r then (if 0 < x then PInf else NInf)
            else Fin (if 0 < x then r else - r)))"

definition binary64 :: arith where
  "binary64 = ieee round64"

definition exact :: arith where
  "exact = ieee Fin"

text \<open>
  Notions for the rounding error in binary64. \<open>theta\<close> is \<open>1 - 2^-53\<close>, the
  smallest factor by which one rounding changes a value in the normal range.
  \<open>near k a b\<close>: each of \<open>a\<close> and \<open>b\<close> is at least the other times \<open>theta ^ k\<close>,
  which is what \<open>k\<close> roundings can do. \<open>band n v\<close>: \<open>v\<close> lies between \<open>2^-n\<close> and
  \<open>2^n\<close>.
\<close>

definition theta :: real where
  "theta = 1 - 1 / 2 ^ 53"

definition near :: "nat \<Rightarrow> real \<Rightarrow> real \<Rightarrow> bool" where
  "near k a b \<longleftrightarrow> b * theta ^ k \<le> a \<and> a * theta ^ k \<le> b"



definition rest_d :: "double \<Rightarrow> double \<Rightarrow> Drone_d" where
  "rest_d mt ms =
     \<lparr>mId_d = 0, mParameters_d = \<lparr>mass_d = Fin 1, maxThrust_d = mt, maxSpeed_d = ms\<rparr>,
      mPosition_d = \<lparr>x_d = Fin 1, y_d = Fin 1\<rparr>, mVelocity_d = \<lparr>x_d = Fin 0, y_d = Fin 0\<rparr>,
      mThrust_d = \<lparr>x_d = Fin 0, y_d = Fin 0\<rparr>\<rparr>"

definition box_d :: World_d where
  "box_d = \<lparr>gravity_d = \<lparr>x_d = Fin 0, y_d = Fin (- 2)\<rparr>, width_d = Fin 2, height_d = Fin 2\<rparr>"

section \<open>Auxiliary lemmas\<close>

subsection \<open>Vectors and thrust\<close>







subsection \<open>The physics update\<close>

lemma enforceBounds_inside:
  assumes "0 \<le> vx (mPosition d)" "vx (mPosition d) \<le> width world"
    "0 \<le> vy (mPosition d)" "vy (mPosition d) \<le> height world"
  shows "enforceBounds d world = d"
  using assms by (simp add: enforceBounds_def)

lemma free_fall_integrate:
  "integrate (new_Drone i \<lparr>mass = 1, maxThrust = mt, maxSpeed = 0\<rparr> \<lparr>vx = px, vy = py\<rparr>) 1
     \<lparr>gravity = \<lparr>vx = 0, vy = g\<rparr>, width = w, height = h\<rparr>
   = \<lparr>mId = i, mParameters = \<lparr>mass = 1, maxThrust = mt, maxSpeed = 0\<rparr>,
      mPosition = \<lparr>vx = px, vy = py + g\<rparr>, mVelocity = \<lparr>vx = 0, vy = g\<rparr>,
      mThrust = \<lparr>vx = 0, vy = 0\<rparr>\<rparr>"
  by (simp add: integrate_def new_Drone_def vec_add_def vec_scale_def)

lemma free_fall_update:
  assumes "0 \<le> px" "px \<le> w" "0 \<le> py + g" "py + g \<le> h"
  shows "update (new_Drone i \<lparr>mass = 1, maxThrust = mt, maxSpeed = 0\<rparr> \<lparr>vx = px, vy = py\<rparr>) 1
     \<lparr>gravity = \<lparr>vx = 0, vy = g\<rparr>, width = w, height = h\<rparr>
   = \<lparr>mId = i, mParameters = \<lparr>mass = 1, maxThrust = mt, maxSpeed = 0\<rparr>,
      mPosition = \<lparr>vx = px, vy = py + g\<rparr>, mVelocity = \<lparr>vx = 0, vy = g\<rparr>,
      mThrust = \<lparr>vx = 0, vy = 0\<rparr>\<rparr>"
  unfolding update_def free_fall_integrate
  using assms by (intro enforceBounds_inside) simp_all

lemma clearThrust_new_Drone: "clearThrust (new_Drone i p q) = new_Drone i p q"
  by (simp add: clearThrust_def new_Drone_def)

lemma mDrones_sim_step:
  "mDrones (sim_step fmt s dt) = map (\<lambda>d. update d dt (mWorld s)) (mDrones s)"
  by (simp add: sim_step_def Let_def)

subsection \<open>Delivery of one message\<close>

lemma deliver_frame [simp]:
  "nodeIndex (deliver n msg t) = nodeIndex n"
  "inTransit (deliver n msg t) = inTransit n"
  "droppedMessages (deliver n msg t) = droppedMessages n"
  "nextMessageId (deliver n msg t) = nextMessageId n"
  "rng (deliver n msg t) = rng n"
  "baseLatency (deliver n msg t) = baseLatency n"
  "jitter (deliver n msg t) = jitter n"
  "dropProb (deliver n msg t) = dropProb n"
  by (simp_all add: deliver_def getNode_def Let_def split: option.split)

lemma deliver_deliveredCount:
  "deliveredCount (deliver n msg t)
     = deliveredCount n + (if nodeIndex n (msg_to msg) = None then 0 else 1)"
  by (simp add: deliver_def getNode_def Let_def split: option.split)

lemma deliver_totalLatency:
  "totalLatency (deliver n msg t)
     = totalLatency n
       + (if nodeIndex n (msg_to msg) = None then 0 else deliverTime msg - sendTime msg)"
  by (simp add: deliver_def getNode_def Let_def split: option.split)

lemma deliver_nodes:
  "nodes (deliver n msg t)
     = (case nodeIndex n (msg_to msg) of
          None \<Rightarrow> nodes n
        | Some dest \<Rightarrow> (nodes n)
            [dest := (nodes n ! dest)\<lparr>inbox := inbox (nodes n ! dest) @ [receipt msg]\<rparr>])"
  by (simp add: deliver_def getNode_def Let_def onMessageReceived_def receipt_def
      split: option.split)

lemma deliver_console:
  "console (deliver n msg t) = console n @ [deliverLine n t msg]"
  by (simp add: deliver_def getNode_def Let_def deliverLine_def split: option.split)

lemma deliver_logFile:
  "logFile (deliver n msg t)
     = logFile n @ (if nodeIndex n (msg_to msg) = None then [] else [deliverRow t msg])"
  by (simp add: deliver_def getNode_def Let_def deliverRow_def split: option.split)

lemma deliver_length_nodes [simp]: "length (nodes (deliver n msg t)) = length (nodes n)"
  by (simp add: deliver_nodes split: option.split)

lemma deliver_nth_node:
  "i < length (nodes n) \<Longrightarrow>
   nodes (deliver n msg t) ! i
     = (if nodeIndex n (msg_to msg) = Some i
        then (nodes n ! i)\<lparr>inbox := inbox (nodes n ! i) @ [receipt msg]\<rparr>
        else nodes n ! i)"
  by (auto simp add: deliver_nodes nth_list_update split: option.split)

lemma deliver_droppedMessages_update:
  "deliver (n\<lparr>droppedMessages := ds\<rparr>) msg t = (deliver n msg t)\<lparr>droppedMessages := ds\<rparr>"
  by (simp add: deliver_def getNode_def Let_def split: option.split)

subsection \<open>The loop of the network step\<close>

lemma step_loop_remaining:
  "snd (step_loop n t ms remaining) = remaining @ filter (\<lambda>m. \<not> deliverTime m \<le> t) ms"
  by (induction ms arbitrary: n remaining) simp_all

lemma step_loop_frame [simp]:
  "nodeIndex (fst (step_loop n t ms remaining)) = nodeIndex n"
  "inTransit (fst (step_loop n t ms remaining)) = inTransit n"
  "droppedMessages (fst (step_loop n t ms remaining)) = droppedMessages n"
  "nextMessageId (fst (step_loop n t ms remaining)) = nextMessageId n"
  "rng (fst (step_loop n t ms remaining)) = rng n"
  "baseLatency (fst (step_loop n t ms remaining)) = baseLatency n"
  "jitter (fst (step_loop n t ms remaining)) = jitter n"
  "dropProb (fst (step_loop n t ms remaining)) = dropProb n"
  "length (nodes (fst (step_loop n t ms remaining))) = length (nodes n)"
  by (induction ms arbitrary: n remaining; simp)+

lemma step_loop_deliveredCount:
  "deliveredCount (fst (step_loop n t ms remaining))
     = deliveredCount n
       + int (length (filter (\<lambda>m. deliverTime m \<le> t \<and> nodeIndex n (msg_to m) \<noteq> None) ms))"
  by (induction ms arbitrary: n remaining) (simp_all add: deliver_deliveredCount)

lemma step_loop_totalLatency:
  "totalLatency (fst (step_loop n t ms remaining))
     = totalLatency n
       + sum_list (map (\<lambda>m. deliverTime m - sendTime m)
           (filter (\<lambda>m. deliverTime m \<le> t \<and> nodeIndex n (msg_to m) \<noteq> None) ms))"
  by (induction ms arbitrary: n remaining) (simp_all add: deliver_totalLatency)

lemma step_loop_nth_node:
  "i < length (nodes n) \<Longrightarrow>
   nodes (fst (step_loop n t ms remaining)) ! i
     = (nodes n ! i)\<lparr>inbox := inbox (nodes n ! i)
         @ map receipt (filter (\<lambda>m. deliverTime m \<le> t \<and> nodeIndex n (msg_to m) = Some i) ms)\<rparr>"
  by (induction ms arbitrary: n remaining) (simp_all add: deliver_nth_node)

lemma deliverLine_cong: "nodeIndex n' = nodeIndex n \<Longrightarrow> deliverLine n' = deliverLine n"
  by (simp add: deliverLine_def fun_eq_iff)

lemma step_loop_console:
  "console (fst (step_loop n t ms remaining))
     = console n @ map (deliverLine n t) (filter (\<lambda>m. deliverTime m \<le> t) ms)"
  by (induction ms arbitrary: n remaining)
    (simp_all add: deliver_console deliverLine_cong [of "deliver _ _ _"])

lemma step_loop_logFile:
  "logFile (fst (step_loop n t ms remaining))
     = logFile n @ map (deliverRow t)
         (filter (\<lambda>m. deliverTime m \<le> t \<and> nodeIndex n (msg_to m) \<noteq> None) ms)"
  by (induction ms arbitrary: n remaining) (simp_all add: deliver_logFile)

lemma step_loop_droppedMessages_update:
  "step_loop (n\<lparr>droppedMessages := ds\<rparr>) t ms remaining
     = (fst (step_loop n t ms remaining)\<lparr>droppedMessages := ds\<rparr>, snd (step_loop n t ms remaining))"
  by (induction ms arbitrary: n remaining) (simp_all add: deliver_droppedMessages_update)

lemma net_step_eq:
  "net_step n t = (fst (step_loop n t (inTransit n) []))\<lparr>inTransit := snd (step_loop n t (inTransit n) [])\<rparr>"
  by (simp add: net_step_def split_beta)

subsection \<open>The cipher\<close>

lemma of_char_xor_less: "(of_char a XOR of_char b :: nat) mod 256 = of_char a XOR of_char b"
proof -
  have "take_bit 8 (of_char a XOR of_char b :: nat) = take_bit 8 (of_char a) XOR take_bit 8 (of_char b)"
    by (simp add: take_bit_xor)
  also have "\<dots> = of_char a XOR of_char b"
    by (simp add: take_bit_eq_mod)
  finally show ?thesis by (simp add: take_bit_eq_mod)
qed

lemma xor_char_involution: "xor_char (xor_char a b) b = a"
  by (simp add: xor_char_def of_char_xor_less xor.assoc)

lemma length_xorCipher [simp]: "length (xorCipher text key) = length text"
  by (simp add: xorCipher_def)

lemma xorCipher_involution: "xorCipher (xorCipher text key) key = text"
  by (rule nth_equalityI) (simp_all add: xorCipher_def xor_char_involution)

subsection \<open>Sending\<close>

lemma sendMessage_frame [simp]:
  "nodes (sendMessage n s r text t) = nodes n"
  "nodeIndex (sendMessage n s r text t) = nodeIndex n"
  "deliveredCount (sendMessage n s r text t) = deliveredCount n"
  "totalLatency (sendMessage n s r text t) = totalLatency n"
  "nextMessageId (sendMessage n s r text t) = nextMessageId n + 1"
  "baseLatency (sendMessage n s r text t) = baseLatency n"
  "jitter (sendMessage n s r text t) = jitter n"
  "dropProb (sendMessage n s r text t) = dropProb n"
  "rng (sendMessage n s r text t) = (\<lambda>i. rng n (Suc (Suc i)))"
  by (simp_all add: sendMessage_def uniform_real_def sampleLatency_def Let_def)

lemma sendMessage_inTransit:
  "inTransit (sendMessage n s r text t)
     = (if rng n 0 < dropProb n then inTransit n else inTransit n @ [stored n s r text t])"
  by (simp add: sendMessage_def uniform_real_def sampleLatency_def Let_def stored_def)

lemma sendMessage_droppedMessages:
  "droppedMessages (sendMessage n s r text t)
     = (if rng n 0 < dropProb n then droppedMessages n @ [stored n s r text t]
        else droppedMessages n)"
  by (simp add: sendMessage_def uniform_real_def sampleLatency_def Let_def stored_def)

lemma sentMessage_eq: "sentMessage n s r text t = stored n s r text t"
  by (simp add: sentMessage_def sendMessage_inTransit sendMessage_droppedMessages)

lemma sendMessage_console:
  "console (sendMessage n s r text t)
     = console n @ [if rng n 0 < dropProb n
                    then DropScheduledLine t s r (nextMessageId n) (length text)
                    else SendLine t s r (nextMessageId n) (length text)]"
  by (simp add: sendMessage_def uniform_real_def sampleLatency_def Let_def)

lemma sendMessage_logFile:
  "logFile (sendMessage n s r text t)
     = logFile n @ [\<lparr>row_event = (if rng n 0 < dropProb n then Ev_drop_scheduled else Ev_send),
                     row_time = t, row_id = nextMessageId n, row_from = s, row_to = r,
                     row_latency = 0,
                     row_dropped = (if rng n 0 < dropProb n then 1 else 0),
                     row_payload = text\<rparr>]"
  by (simp add: sendMessage_def uniform_real_def sampleLatency_def Let_def)

subsection \<open>The network step\<close>

lemma net_step_inTransit:
  "inTransit (net_step n t) = filter (\<lambda>m. \<not> deliverTime m \<le> t) (inTransit n)"
  by (simp add: net_step_eq step_loop_remaining)

lemma net_step_frame [simp]:
  "nodeIndex (net_step n t) = nodeIndex n"
  "droppedMessages (net_step n t) = droppedMessages n"
  "nextMessageId (net_step n t) = nextMessageId n"
  "rng (net_step n t) = rng n"
  "baseLatency (net_step n t) = baseLatency n"
  "jitter (net_step n t) = jitter n"
  "dropProb (net_step n t) = dropProb n"
  "length (nodes (net_step n t)) = length (nodes n)"
  by (simp_all add: net_step_eq)

lemma net_step_deliveredCount:
  "deliveredCount (net_step n t)
     = deliveredCount n
       + int (length (filter (\<lambda>m. deliverTime m \<le> t \<and> nodeIndex n (msg_to m) \<noteq> None)
           (inTransit n)))"
  by (simp add: net_step_eq step_loop_deliveredCount)

lemma net_step_totalLatency:
  "totalLatency (net_step n t)
     = totalLatency n
       + sum_list (map (\<lambda>m. deliverTime m - sendTime m)
           (filter (\<lambda>m. deliverTime m \<le> t \<and> nodeIndex n (msg_to m) \<noteq> None) (inTransit n)))"
  by (simp add: net_step_eq step_loop_totalLatency)

lemma net_step_nth_node:
  "i < length (nodes n) \<Longrightarrow>
   nodes (net_step n t) ! i
     = (nodes n ! i)\<lparr>inbox := inbox (nodes n ! i)
         @ map receipt
             (filter (\<lambda>m. deliverTime m \<le> t \<and> nodeIndex n (msg_to m) = Some i) (inTransit n))\<rparr>"
  by (simp add: net_step_eq step_loop_nth_node)

lemma net_step_console:
  "console (net_step n t)
     = console n @ map (deliverLine n t) (filter (\<lambda>m. deliverTime m \<le> t) (inTransit n))"
  by (simp add: net_step_eq step_loop_console)

lemma net_step_logFile:
  "logFile (net_step n t)
     = logFile n @ map (deliverRow t)
         (filter (\<lambda>m. deliverTime m \<le> t \<and> nodeIndex n (msg_to m) \<noteq> None) (inTransit n))"
  by (simp add: net_step_eq step_loop_logFile)

lemma net_step_droppedMessages_update:
  "net_step (n\<lparr>droppedMessages := ds\<rparr>) t = (net_step n t)\<lparr>droppedMessages := ds\<rparr>"
  by (simp add: net_step_def step_loop_droppedMessages_update split_beta)

subsection \<open>Sequences of calls\<close>

lemma run_append: "run n (cs @ ds) = run (run n cs) ds"
  by (induction n cs rule: run.induct) simp_all

lemma isDeliveryFailed_deliverLine:
  "isDeliveryFailed (deliverLine n t m) \<longleftrightarrow> nodeIndex n (msg_to m) = None"
  by (simp add: deliverLine_def split: option.split)

lemma count_split:
  "length (filter (\<lambda>m. P m \<and> Q m) xs) + length (filter (\<lambda>m. \<not> P m) xs)
     + length (filter (\<lambda>m. \<not> Q m) (filter P xs)) = length xs"
  by (induction xs) auto

lemma net_step_failures:
  "deliveryFailures (net_step n t)
     = deliveryFailures n
       + length (filter (\<lambda>m. nodeIndex n (msg_to m) = None)
           (filter (\<lambda>m. deliverTime m \<le> t) (inTransit n)))"
  by (simp add: deliveryFailures_def net_step_console filter_map o_def
      isDeliveryFailed_deliverLine)

lemma net_step_balance:
  "deliveredCount (net_step n t) + int (length (droppedMessages (net_step n t)))
     + int (length (inTransit (net_step n t))) + int (deliveryFailures (net_step n t))
   = deliveredCount n + int (length (droppedMessages n)) + int (length (inTransit n))
     + int (deliveryFailures n)"
  using count_split [of "\<lambda>m. deliverTime m \<le> t" "\<lambda>m. nodeIndex n (msg_to m) \<noteq> None" "inTransit n"]
  by (simp add: net_step_deliveredCount net_step_inTransit net_step_failures)

lemma sendMessage_failures [simp]:
  "deliveryFailures (sendMessage n s r text t) = deliveryFailures n"
  by (simp add: deliveryFailures_def sendMessage_console)

lemma sendMessage_balance:
  "deliveredCount (sendMessage n s r text t)
     + int (length (droppedMessages (sendMessage n s r text t)))
     + int (length (inTransit (sendMessage n s r text t)))
     + int (deliveryFailures (sendMessage n s r text t))
   = deliveredCount n + int (length (droppedMessages n)) + int (length (inTransit n))
     + int (deliveryFailures n) + 1"
  by (simp add: sendMessage_inTransit sendMessage_droppedMessages)

lemma run_balance:
  "deliveredCount (run n cs) + int (length (droppedMessages (run n cs)))
     + int (length (inTransit (run n cs))) + int (deliveryFailures (run n cs))
   = deliveredCount n + int (length (droppedMessages n)) + int (length (inTransit n))
     + int (deliveryFailures n) + int (sends cs)"
proof (induction n cs rule: run.induct)
  case (1 n)
  show ?case by simp
next
  case (2 n sender recipient body t cs)
  show ?case
    using "2.IH" sendMessage_balance [of n sender recipient body t] by simp
next
  case (3 n now cs)
  show ?case
    using "3.IH" net_step_balance [of n now] by simp
qed

lemma run_inTransit_subset:
  "set (inTransit (run n cs)) \<subseteq> set (inTransit n) \<union> set (sentMessages n cs)"
proof (induction n cs rule: run.induct)
  case (1 n)
  show ?case by simp
next
  case (2 n sender recipient body t cs)
  have "set (inTransit (sendMessage n sender recipient body t))
          \<subseteq> set (inTransit n) \<union> {sentMessage n sender recipient body t}"
    by (auto simp add: sendMessage_inTransit sentMessage_eq)
  with "2.IH" show ?case by auto
next
  case (3 n now cs)
  have "set (inTransit (net_step n now)) \<subseteq> set (inTransit n)"
    by (simp add: net_step_inTransit)
  with "3.IH" show ?case by auto
qed

lemma run_keeps_in_transit:
  "m \<in> set (inTransit n) \<Longrightarrow> advancesBefore (deliverTime m) cs \<Longrightarrow> m \<in> set (inTransit (run n cs))"
proof (induction n cs rule: run.induct)
  case (1 n)
  then show ?case by simp
next
  case (2 n sender recipient body t cs)
  then show ?case by (simp add: sendMessage_inTransit)
next
  case (3 n now cs)
  then show ?case by (simp add: net_step_inTransit)
qed

lemma foldl_addNode_frame [simp]:
  "inTransit (foldl addNode n names) = inTransit n"
  "droppedMessages (foldl addNode n names) = droppedMessages n"
  "deliveredCount (foldl addNode n names) = deliveredCount n"
  "console (foldl addNode n names) = console n"
  by (induction names arbitrary: n; simp add: addNode_def Let_def)+

lemma net_step_nodes_cong:
  assumes "nodes n' = nodes n"
    and "\<And>i. i < length (nodes n) \<Longrightarrow>
           filter (\<lambda>m. deliverTime m \<le> t' \<and> nodeIndex n' (msg_to m) = Some i) (inTransit n')
         = filter (\<lambda>m. deliverTime m \<le> t \<and> nodeIndex n (msg_to m) = Some i) (inTransit n)"
  shows "nodes (net_step n' t') = nodes (net_step n t)"
proof (rule nth_equalityI)
  show "length (nodes (net_step n' t')) = length (nodes (net_step n t))"
    using assms(1) by simp
next
  fix i
  assume "i < length (nodes (net_step n' t'))"
  then have i: "i < length (nodes n)"
    using assms(1) by simp
  then have i': "i < length (nodes n')"
    using assms(1) by simp
  show "nodes (net_step n' t') ! i = nodes (net_step n t) ! i"
    by (simp only: net_step_nth_node [OF i] net_step_nth_node [OF i'] assms(2) [OF i] assms(1))
qed

lemma deliver_unknown:
  "getNode n (msg_to m) = None \<Longrightarrow>
   deliver n m now = n\<lparr>console := console n @ [DeliveryFailedLine now (msg_to m) (msg_id m)]\<rparr>"
  by (simp add: deliver_def)

lemma deliveryFailures_inTransit_update [simp]:
  "deliveryFailures (n\<lparr>inTransit := xs\<rparr>) = deliveryFailures n"
  by (simp add: deliveryFailures_def)

lemma net_step_without_unknown:
  assumes unknown: "nodeIndex n (msg_to m) = None"
    and due: "deliverTime m \<le> now"
    and at: "inTransit n = xs @ m # ys"
  shows "nodes (net_step n now) = nodes (net_step (n\<lparr>inTransit := xs @ ys\<rparr>) now)"
    and "deliveredCount (net_step n now) = deliveredCount (net_step (n\<lparr>inTransit := xs @ ys\<rparr>) now)"
    and "totalLatency (net_step n now) = totalLatency (net_step (n\<lparr>inTransit := xs @ ys\<rparr>) now)"
    and "inTransit (net_step n now) = inTransit (net_step (n\<lparr>inTransit := xs @ ys\<rparr>) now)"
    and "logFile (net_step n now) = logFile (net_step (n\<lparr>inTransit := xs @ ys\<rparr>) now)"
    and "deliveryFailures (net_step n now)
           = Suc (deliveryFailures (net_step (n\<lparr>inTransit := xs @ ys\<rparr>) now))"
proof -
  show "nodes (net_step n now) = nodes (net_step (n\<lparr>inTransit := xs @ ys\<rparr>) now)"
    by (rule net_step_nodes_cong) (simp_all add: at unknown)
  show "deliveredCount (net_step n now) = deliveredCount (net_step (n\<lparr>inTransit := xs @ ys\<rparr>) now)"
    by (simp add: net_step_deliveredCount at unknown)
  show "totalLatency (net_step n now) = totalLatency (net_step (n\<lparr>inTransit := xs @ ys\<rparr>) now)"
    by (simp add: net_step_totalLatency at unknown)
  show "inTransit (net_step n now) = inTransit (net_step (n\<lparr>inTransit := xs @ ys\<rparr>) now)"
    by (simp add: net_step_inTransit at due)
  show "logFile (net_step n now) = logFile (net_step (n\<lparr>inTransit := xs @ ys\<rparr>) now)"
    by (simp add: net_step_logFile at unknown)
  show "deliveryFailures (net_step n now)
           = Suc (deliveryFailures (net_step (n\<lparr>inTransit := xs @ ys\<rparr>) now))"
    by (simp add: net_step_failures at unknown due)
qed

lemma scenario_C:
  assumes "dropProb n = 0" "baseLatency n = 1" "jitter n = 0" "0 \<le> rng n 0"
    and empty: "inTransit n = []" and ghost: "nodeIndex n ''Ghost'' = None"
  shows "deliveredCount (net_step (sendMessage n ''A'' ''Ghost'' p 0) 1) = deliveredCount n"
    and "totalLatency (net_step (sendMessage n ''A'' ''Ghost'' p 0) 1) = totalLatency n"
    and "nodes (net_step (sendMessage n ''A'' ''Ghost'' p 0) 1) = nodes n"
    and "inTransit (net_step (sendMessage n ''A'' ''Ghost'' p 0) 1) = []"
    and "console (net_step (sendMessage n ''A'' ''Ghost'' p 0) 1)
           = console n @ [SendLine 0 ''A'' ''Ghost'' (nextMessageId n) (length p),
                          DeliveryFailedLine 1 ''Ghost'' (nextMessageId n)]"
proof -
  let ?n1 = "sendMessage n ''A'' ''Ghost'' p 0"
  have sent: "inTransit ?n1 = [stored n ''A'' ''Ghost'' p 0]"
    using assms by (simp add: sendMessage_inTransit)
  have to: "msg_to (stored n ''A'' ''Ghost'' p 0) = ''Ghost''"
    and due: "deliverTime (stored n ''A'' ''Ghost'' p 0) = 1"
    and ident: "msg_id (stored n ''A'' ''Ghost'' p 0) = nextMessageId n"
    using assms by (simp_all add: stored_def)
  show "deliveredCount (net_step ?n1 1) = deliveredCount n"
    by (simp add: net_step_deliveredCount sent to ghost)
  show "totalLatency (net_step ?n1 1) = totalLatency n"
    by (simp add: net_step_totalLatency sent to ghost)
  show "inTransit (net_step ?n1 1) = []"
    by (simp add: net_step_inTransit sent due)
  show "console (net_step ?n1 1)
           = console n @ [SendLine 0 ''A'' ''Ghost'' (nextMessageId n) (length p),
                          DeliveryFailedLine 1 ''Ghost'' (nextMessageId n)]"
    using assms(1,4)
    by (simp add: net_step_console sent due sendMessage_console deliverLine_def to ghost ident)
  show "nodes (net_step ?n1 1) = nodes n"
  proof (rule nth_equalityI)
    show "length (nodes (net_step ?n1 1)) = length (nodes n)" by simp
  next
    fix i assume "i < length (nodes (net_step ?n1 1))"
    then have "i < length (nodes ?n1)" by simp
    then show "nodes (net_step ?n1 1) ! i = nodes n ! i"
      by (simp add: net_step_nth_node sent to ghost)
  qed
qed

lemma sentMessage_fields:
  "payload (sentMessage n s r body t) = body"
  "cipherText (sentMessage n s r body t) = xorCipher body encryptionKey"
  "msg_id (sentMessage n s r body t) = nextMessageId n"
  "msg_from (sentMessage n s r body t) = s"
  "msg_to (sentMessage n s r body t) = r"
  "sendTime (sentMessage n s r body t) = t"
  "dropped (sentMessage n s r body t) = (rng n 0 < dropProb n)"
  by (simp_all add: sentMessage_eq stored_def)

lemma sendMessage_classifies:
  "if dropped (sentMessage n s r body t)
   then droppedMessages (sendMessage n s r body t)
          = droppedMessages n @ [sentMessage n s r body t]
        \<and> inTransit (sendMessage n s r body t) = inTransit n
   else inTransit (sendMessage n s r body t) = inTransit n @ [sentMessage n s r body t]
        \<and> droppedMessages (sendMessage n s r body t) = droppedMessages n"
  by (simp add: sendMessage_inTransit sendMessage_droppedMessages sentMessage_eq stored_def)

lemma send_then_step_inbox:
  assumes i: "i < length (nodes n)" and reg: "nodeIndex n r = Some i"
    and kept: "\<not> dropped (sentMessage n s r body t)"
    and due: "deliverTime (sentMessage n s r body t) \<le> now"
  shows "inbox (nodes (net_step (sendMessage n s r body t) now) ! i)
           = inbox (nodes n ! i)
             @ map receipt
                 (filter (\<lambda>m. deliverTime m \<le> now \<and> nodeIndex n (msg_to m) = Some i)
                    (inTransit n))
             @ [receipt (sentMessage n s r body t)]"
proof -
  have "inTransit (sendMessage n s r body t) = inTransit n @ [sentMessage n s r body t]"
    using kept sendMessage_classifies [of n s r body t] by simp
  with i reg due show ?thesis
    by (simp add: net_step_nth_node sentMessage_fields)
qed

lemma new_Network_fresh [simp]:
  "inTransit (new_Network bl jt dp r) = []"
  "droppedMessages (new_Network bl jt dp r) = []"
  "deliveredCount (new_Network bl jt dp r) = 0"
  "console (new_Network bl jt dp r) = []"
  by (simp_all add: new_Network_def)

lemma all_delivered:
  assumes fresh: "inTransit n = []" "droppedMessages n = []" "deliveredCount n = 0"
      "deliveryFailures n = 0"
    and due: "\<forall>m\<in>set (sentMessages n cs). deliverTime m \<le> now"
    and ok: "deliveryFailures (run n (cs @ [Advance now])) = 0"
  shows "deliveredCount (run n (cs @ [Advance now]))
           + int (length (droppedMessages (run n (cs @ [Advance now])))) = int (sends cs)"
    and "inTransit (run n (cs @ [Advance now])) = []"
proof -
  let ?a = "run n cs"
  have final: "run n (cs @ [Advance now]) = net_step ?a now"
    by (simp add: run_append)
  have "set (inTransit ?a) \<subseteq> set (sentMessages n cs)"
    using run_inTransit_subset [of n cs] fresh by simp
  with due have "filter (\<lambda>m. \<not> deliverTime m \<le> now) (inTransit ?a) = []"
    by (auto simp add: filter_empty_conv)
  then show empty: "inTransit (run n (cs @ [Advance now])) = []"
    by (simp add: final net_step_inTransit)
  have "deliveredCount (net_step ?a now) + int (length (droppedMessages (net_step ?a now)))
          + int (length (inTransit (net_step ?a now))) + int (deliveryFailures (net_step ?a now))
        = int (sends cs)"
    using net_step_balance [of ?a now] run_balance [of n cs] fresh by simp
  with empty ok show "deliveredCount (run n (cs @ [Advance now]))
           + int (length (droppedMessages (run n (cs @ [Advance now])))) = int (sends cs)"
    by (simp add: final)
qed

subsection \<open>Registration and the example networks\<close>

lemma addNode_frame [simp]:
  "inTransit (addNode n nm) = inTransit n"
  "droppedMessages (addNode n nm) = droppedMessages n"
  "deliveredCount (addNode n nm) = deliveredCount n"
  "totalLatency (addNode n nm) = totalLatency n"
  "nextMessageId (addNode n nm) = nextMessageId n"
  "console (addNode n nm) = console n"
  "logFile (addNode n nm) = logFile n"
  "rng (addNode n nm) = rng n"
  "baseLatency (addNode n nm) = baseLatency n"
  "jitter (addNode n nm) = jitter n"
  "dropProb (addNode n nm) = dropProb n"
  by (simp_all add: addNode_def Let_def)

lemma addNode_nodes: "nodes (addNode n nm) = nodes n @ [new_Node nm]"
  by (simp add: addNode_def Let_def)

lemma addNode_nodeIndex: "nodeIndex (addNode n nm) = (nodeIndex n)(nm \<mapsto> length (nodes n))"
  by (simp add: addNode_def Let_def)

lemma example_net_fields:
  "nodes example_net = [new_Node ''A'', new_Node ''B'']"
  "nodeIndex example_net ''A'' = Some 0"
  "nodeIndex example_net ''B'' = Some 1"
  "nodeIndex example_net ''Ghost'' = None"
  "inTransit example_net = []"
  "droppedMessages example_net = []"
  "deliveredCount example_net = 0"
  "totalLatency example_net = 0"
  "nextMessageId example_net = 1"
  "console example_net = []"
  "rng example_net = (\<lambda>i. 0)"
  "baseLatency example_net = 1"
  "jitter example_net = 0"
  "dropProb example_net = 0"
  by (simp_all add: example_net_def addNode_nodes addNode_nodeIndex) (simp_all add: new_Network_def)

lemma example_busy_fields:
  "nodes example_busy = [new_Node ''A'', new_Node ''B'']"
  "nodeIndex example_busy ''A'' = Some 0"
  "nodeIndex example_busy ''B'' = Some 1"
  "nodeIndex example_busy ''Ghost'' = None"
  "inTransit example_busy = [example_hi, example_lost, example_yo]"
  "droppedMessages example_busy = []"
  "deliveredCount example_busy = 0"
  "totalLatency example_busy = 0"
  by (simp_all add: example_busy_def example_net_fields sendMessage_inTransit
      sendMessage_droppedMessages stored_def example_hi_def example_lost_def example_yo_def)

lemma example_messages [simp]:
  "msg_to example_hi = ''B''" "msg_to example_lost = ''Ghost''" "msg_to example_yo = ''B''"
  "deliverTime example_hi = 1" "deliverTime example_lost = 1" "deliverTime example_yo = 6"
  "sendTime example_hi = 0" "sendTime example_lost = 0" "sendTime example_yo = 5"
  "msg_id example_hi = 1" "msg_id example_lost = 2" "msg_id example_yo = 3"
  by (simp_all add: example_hi_def example_lost_def example_yo_def)

lemma receipt_example_hi:
  "receipt example_hi
     = \<lparr>rm_id = 1, rm_from = ''A'', rm_payload = ''hi'', timeReceived = 1, latency = 1\<rparr>"
  by (simp add: receipt_def example_hi_def xorCipher_involution)

lemma receipt_example_yo:
  "receipt example_yo
     = \<lparr>rm_id = 3, rm_from = ''A'', rm_payload = ''yo'', timeReceived = 6, latency = 1\<rparr>"
  by (simp add: receipt_def example_yo_def xorCipher_involution)

lemma example_lossy_fields:
  "nodeIndex example_lossy ''B'' = Some 1"
  "inTransit example_lossy = []"
  "droppedMessages example_lossy = []"
  "deliveredCount example_lossy = 0"
  "console example_lossy = []"
  "rng example_lossy = (\<lambda>i. if i < 2 then 0 else 9 / 10)"
  "baseLatency example_lossy = 1"
  "jitter example_lossy = 0"
  "dropProb example_lossy = 1 / 2"
  "deliveryFailures example_lossy = 0"
  by (simp_all add: example_lossy_def addNode_nodeIndex addNode_nodes deliveryFailures_def)
    (simp_all add: new_Network_def)

subsection \<open>The index stays in range\<close>


lemma index_ok_addNode: "index_ok n \<Longrightarrow> index_ok (addNode n nm)"
  by (auto simp add: index_ok_def addNode_nodes addNode_nodeIndex less_Suc_eq)

lemma length_nodes_addNode [simp]: "length (nodes (addNode n nm)) = Suc (length (nodes n))"
  by (simp add: addNode_nodes)

lemma run_frame [simp]:
  "nodeIndex (run n cs) = nodeIndex n"
  "length (nodes (run n cs)) = length (nodes n)"
  by (induction n cs rule: run.induct) simp_all

lemma index_ok_run: "index_ok n \<Longrightarrow> index_ok (run n cs)"
  by (simp add: index_ok_def)


subsection \<open>The simulator step\<close>

lemma report_as_run:
  "foldl (\<lambda>c d. sendDroneStatus fmt c d t) c ds = run c (map (telemetry fmt t) ds)"
  by (induction ds arbitrary: c) (simp_all add: sendDroneStatus_def telemetry_def)

lemma sends_telemetry [simp]: "sends (map (telemetry fmt t) ds) = length ds"
  by (induction ds) (simp_all add: telemetry_def)

lemma run_sends_nextMessageId:
  "nextMessageId (run c (map (telemetry fmt t) ds)) = nextMessageId c + int (length ds)"
  by (induction ds arbitrary: c) (simp_all add: telemetry_def)

lemma run_sends_logFile_length:
  "length (logFile (run c (map (telemetry fmt t) ds))) = length (logFile c) + length ds"
  by (induction ds arbitrary: c) (simp_all add: telemetry_def sendMessage_logFile)

lemma run_sends_logFile_old:
  "j < length (logFile c) \<Longrightarrow> logFile (run c (map (telemetry fmt t) ds)) ! j = logFile c ! j"
  by (induction ds arbitrary: c) (simp_all add: telemetry_def sendMessage_logFile nth_append)

lemma run_sends_logFile_new:
  "k < length ds \<Longrightarrow>
   row_time (logFile (run c (map (telemetry fmt t) ds)) ! (length (logFile c) + k)) = t
   \<and> row_id (logFile (run c (map (telemetry fmt t) ds)) ! (length (logFile c) + k))
       = nextMessageId c + int k
   \<and> row_from (logFile (run c (map (telemetry fmt t) ds)) ! (length (logFile c) + k))
       = ''Drone'' @ to_string (mId (ds ! k))
   \<and> row_to (logFile (run c (map (telemetry fmt t) ds)) ! (length (logFile c) + k)) = ''HQ''
   \<and> row_payload (logFile (run c (map (telemetry fmt t) ds)) ! (length (logFile c) + k))
       = statusPayload fmt (ds ! k)
   \<and> row_event (logFile (run c (map (telemetry fmt t) ds)) ! (length (logFile c) + k))
       \<noteq> Ev_deliver"
proof (induction ds arbitrary: c k)
  case Nil
  then show ?case by simp
next
  case (Cons d ds)
  let ?c1 = "sendMessage c (''Drone'' @ to_string (mId d)) ''HQ'' (statusPayload fmt d) t"
  have run: "run c (map (telemetry fmt t) (d # ds)) = run ?c1 (map (telemetry fmt t) ds)"
    by (simp add: telemetry_def)
  show ?case
  proof (cases k)
    case 0
    have "logFile (run ?c1 (map (telemetry fmt t) ds)) ! length (logFile c)
            = logFile ?c1 ! length (logFile c)"
      by (rule run_sends_logFile_old) (simp add: sendMessage_logFile)
    then show ?thesis
      unfolding run 0 by (simp add: sendMessage_logFile)
  next
    case (Suc k')
    with Cons.prems have "k' < length ds" by simp
    from Cons.IH [OF this, of ?c1] show ?thesis
      unfolding run Suc by (simp add: sendMessage_logFile)
  qed
qed

lemma net_step_logFile_rows:
  "j < length (logFile c) \<Longrightarrow> logFile (net_step c t) ! j = logFile c ! j"
  "length (logFile c) \<le> j \<Longrightarrow> j < length (logFile (net_step c t)) \<Longrightarrow>
     row_event (logFile (net_step c t) ! j) = Ev_deliver \<and> row_time (logFile (net_step c t) ! j) = t"
  by (auto simp add: net_step_logFile nth_append deliverRow_def)

lemma net_step_leaves_nothing_due:
  "m \<in> set (inTransit (net_step c t)) \<Longrightarrow> t < deliverTime m"
  by (simp add: net_step_inTransit)

lemma sim_step_fields:
  "mSimTime (sim_step fmt s dt) = mSimTime s + dt"
  "mWorld (sim_step fmt s dt) = mWorld s"
  "mReportInterval (sim_step fmt s dt) = mReportInterval s"
  "mNextReportTime (sim_step fmt s dt)
     = (if mSimTime s + dt \<ge> mNextReportTime s then mNextReportTime s + mReportInterval s
        else mNextReportTime s)"
  by (simp_all add: sim_step_def Let_def)

lemma sim_step_comms:
  "mComms (sim_step fmt s dt)
     = run (mComms s)
         ((if mSimTime s + dt \<ge> mNextReportTime s
           then map (telemetry fmt (mSimTime s + dt))
                  (map (\<lambda>d. update d dt (mWorld s)) (mDrones s))
           else []) @ [Advance (mSimTime s + dt)])"
  by (simp add: sim_step_def Let_def report_as_run run_append)

lemma sim_step_report:
  assumes report: "mNextReportTime s \<le> mSimTime s + dt"
  shows "mNextReportTime (sim_step fmt s dt) = mNextReportTime s + mReportInterval s"
    and "nextMessageId (mComms (sim_step fmt s dt))
           = nextMessageId (mComms s) + int (length (mDrones s))"
    and "k < length (mDrones s) \<Longrightarrow>
         row_time (logFile (mComms (sim_step fmt s dt)) ! (length (logFile (mComms s)) + k))
           = mSimTime s + dt
         \<and> row_id (logFile (mComms (sim_step fmt s dt)) ! (length (logFile (mComms s)) + k))
             = nextMessageId (mComms s) + int k
         \<and> row_from (logFile (mComms (sim_step fmt s dt)) ! (length (logFile (mComms s)) + k))
             = ''Drone'' @ to_string (mId (mDrones (sim_step fmt s dt) ! k))
         \<and> row_to (logFile (mComms (sim_step fmt s dt)) ! (length (logFile (mComms s)) + k))
             = ''HQ''
         \<and> row_payload (logFile (mComms (sim_step fmt s dt)) ! (length (logFile (mComms s)) + k))
             = statusPayload fmt (mDrones (sim_step fmt s dt) ! k)
         \<and> row_event (logFile (mComms (sim_step fmt s dt)) ! (length (logFile (mComms s)) + k))
             \<noteq> Ev_deliver"
    and "length (logFile (mComms s)) + length (mDrones s) \<le> j \<Longrightarrow>
         j < length (logFile (mComms (sim_step fmt s dt))) \<Longrightarrow>
         row_event (logFile (mComms (sim_step fmt s dt)) ! j) = Ev_deliver
         \<and> row_time (logFile (mComms (sim_step fmt s dt)) ! j) = mSimTime s + dt"
proof -
  let ?t = "mSimTime s + dt"
  let ?ds = "map (\<lambda>d. update d dt (mWorld s)) (mDrones s)"
  let ?c1 = "run (mComms s) (map (telemetry fmt ?t) ?ds)"
  have comms: "mComms (sim_step fmt s dt) = net_step ?c1 ?t"
    using report by (simp add: sim_step_comms run_append)
  have drones: "mDrones (sim_step fmt s dt) = ?ds"
    by (rule mDrones_sim_step)
  have len1: "length (logFile ?c1) = length (logFile (mComms s)) + length (mDrones s)"
    using run_sends_logFile_length [of "mComms s" fmt ?t ?ds] by simp
  show "mNextReportTime (sim_step fmt s dt) = mNextReportTime s + mReportInterval s"
    using report by (simp add: sim_step_fields)
  show "nextMessageId (mComms (sim_step fmt s dt))
           = nextMessageId (mComms s) + int (length (mDrones s))"
    using run_sends_nextMessageId [of "mComms s" fmt ?t ?ds] by (simp add: comms)
  {
    assume k: "k < length (mDrones s)"
    then have "length (logFile (mComms s)) + k < length (logFile ?c1)"
      unfolding len1 by simp
    then have same: "logFile (net_step ?c1 ?t) ! (length (logFile (mComms s)) + k)
                 = logFile ?c1 ! (length (logFile (mComms s)) + k)"
      by (rule net_step_logFile_rows)
    from k have "k < length ?ds" by simp
    from run_sends_logFile_new [OF this, of "mComms s" fmt ?t]
    show "row_time (logFile (mComms (sim_step fmt s dt)) ! (length (logFile (mComms s)) + k))
           = mSimTime s + dt
         \<and> row_id (logFile (mComms (sim_step fmt s dt)) ! (length (logFile (mComms s)) + k))
             = nextMessageId (mComms s) + int k
         \<and> row_from (logFile (mComms (sim_step fmt s dt)) ! (length (logFile (mComms s)) + k))
             = ''Drone'' @ to_string (mId (mDrones (sim_step fmt s dt) ! k))
         \<and> row_to (logFile (mComms (sim_step fmt s dt)) ! (length (logFile (mComms s)) + k))
             = ''HQ''
         \<and> row_payload (logFile (mComms (sim_step fmt s dt)) ! (length (logFile (mComms s)) + k))
             = statusPayload fmt (mDrones (sim_step fmt s dt) ! k)
         \<and> row_event (logFile (mComms (sim_step fmt s dt)) ! (length (logFile (mComms s)) + k))
             \<noteq> Ev_deliver"
      unfolding comms drones same by simp
  }
  {
    assume "length (logFile (mComms s)) + length (mDrones s) \<le> j"
      and "j < length (logFile (mComms (sim_step fmt s dt)))"
    then have "length (logFile ?c1) \<le> j" "j < length (logFile (net_step ?c1 ?t))"
      unfolding len1 comms by simp_all
    then show "row_event (logFile (mComms (sim_step fmt s dt)) ! j) = Ev_deliver
         \<and> row_time (logFile (mComms (sim_step fmt s dt)) ! j) = mSimTime s + dt"
      unfolding comms by (rule net_step_logFile_rows)
  }
qed

lemma sim_step_silent:
  assumes quiet: "\<not> mNextReportTime s \<le> mSimTime s + dt"
  shows "mNextReportTime (sim_step fmt s dt) = mNextReportTime s"
    and "mComms (sim_step fmt s dt) = net_step (mComms s) (mSimTime s + dt)"
    and "nextMessageId (mComms (sim_step fmt s dt)) = nextMessageId (mComms s)"
    and "droppedMessages (mComms (sim_step fmt s dt)) = droppedMessages (mComms s)"
proof -
  show "mNextReportTime (sim_step fmt s dt) = mNextReportTime s"
    using quiet by (simp add: sim_step_fields)
  show comms: "mComms (sim_step fmt s dt) = net_step (mComms s) (mSimTime s + dt)"
    using quiet by (simp add: sim_step_comms)
  show "nextMessageId (mComms (sim_step fmt s dt)) = nextMessageId (mComms s)"
    by (simp add: comms)
  show "droppedMessages (mComms (sim_step fmt s dt)) = droppedMessages (mComms s)"
    by (simp add: comms)
qed

lemma sim_step_nothing_due:
  "m \<in> set (inTransit (mComms (sim_step fmt s dt))) \<Longrightarrow> mSimTime s + dt < deliverTime m"
  by (simp add: sim_step_comms run_append net_step_inTransit)

lemma to_string_0: "to_string 0 = ''0''"
  by (simp add: to_string_def digits.simps char_of_def bit_iff_odd)

lemma example_sim_fields:
  "mSimTime example_sim = 0"
  "mNextReportTime example_sim = 1 / 2"
  "mReportInterval example_sim = 1 / 2"
  "mDrones example_sim
     = [new_Drone 0 \<lparr>mass = 1, maxThrust = 10, maxSpeed = 0\<rparr> \<lparr>vx = 50, vy = 50\<rparr>]"
  "logFile (mComms example_sim) = []"
  "nextMessageId (mComms example_sim) = 1"
  by (simp_all add: example_sim_def addDrone_def new_Simulator_def Let_def new_Network_def)

subsection \<open>Comparisons of doubles and the boundary statements\<close>

lemma dless_NaN [simp]: "\<not> dless NaN a" "\<not> dless a NaN"
  by (simp_all add: dless_def split: option.split prod.split)

lemma dle_NaN [simp]: "\<not> dle NaN a" "\<not> dle a NaN"
  by (simp_all add: dle_def split: option.split prod.split)

lemma dless_irrefl [simp]: "\<not> dless a a"
  by (simp add: dless_def split: option.split prod.split)

lemma dle_zero_not_less: "dle (Fin 0) w \<Longrightarrow> \<not> dless w (Fin 0)"
  by (cases w) (auto simp add: dle_def dless_def)

lemma dle_refl_iff: "dle a a \<longleftrightarrow> a \<noteq> NaN"
  by (cases a) (simp_all add: dle_def)

lemma not_dless_dle: "a \<noteq> NaN \<Longrightarrow> b \<noteq> NaN \<Longrightarrow> \<not> dless a b \<Longrightarrow> dle b a"
  by (cases a; cases b) (auto simp add: dle_def dless_def)

lemma clamp_axis:
  fixes p w :: double
  assumes w: "dle (Fin 0) w"
  defines "r \<equiv> (if dless p (Fin 0) then Fin 0 else if dless w p then w else p)"
  shows "p \<noteq> NaN \<Longrightarrow> dle (Fin 0) r \<and> dle r w" and "p = NaN \<Longrightarrow> r = NaN"
proof -
  have wn: "w \<noteq> NaN" using w by auto
  show "dle (Fin 0) r \<and> dle r w" if p: "p \<noteq> NaN"
  proof (cases "dless p (Fin 0)")
    case True
    then show ?thesis using w by (simp add: r_def dle_refl_iff)
  next
    case False
    then have lo: "dle (Fin 0) p" using p by (simp add: not_dless_dle)
    show ?thesis
    proof (cases "dless w p")
      case True
      with False w wn show ?thesis by (simp add: r_def dle_refl_iff)
    next
      case no: False
      with False lo p wn show ?thesis by (simp add: r_def not_dless_dle)
    qed
  qed
  show "r = NaN" if "p = NaN"
    using that by (simp add: r_def)
qed

lemma enforceBounds_d_x:
  "dle (Fin 0) (width_d world) \<Longrightarrow>
   x_d (mPosition_d (enforceBounds_d d world))
     = (if dless (x_d (mPosition_d d)) (Fin 0) then Fin 0
        else if dless (width_d world) (x_d (mPosition_d d)) then width_d world
        else x_d (mPosition_d d))"
  by (simp add: enforceBounds_d_def Let_def dle_zero_not_less)

lemma enforceBounds_d_y:
  "dle (Fin 0) (height_d world) \<Longrightarrow>
   y_d (mPosition_d (enforceBounds_d d world))
     = (if dless (y_d (mPosition_d d)) (Fin 0) then Fin 0
        else if dless (height_d world) (y_d (mPosition_d d)) then height_d world
        else y_d (mPosition_d d))"
  by (simp add: enforceBounds_d_def Let_def dle_zero_not_less)

lemma enforceBounds_d_vx:
  "x_d (mVelocity_d (enforceBounds_d d world))
     = (if dless (x_d (mPosition_d d)) (Fin 0) \<or> dless (width_d world) (x_d (mPosition_d d))
        then Fin 0 else x_d (mVelocity_d d))"
  by (simp add: enforceBounds_d_def Let_def)

lemma enforceBounds_d_vy:
  "y_d (mVelocity_d (enforceBounds_d d world))
     = (if dless (y_d (mPosition_d d)) (Fin 0) \<or> dless (height_d world) (y_d (mPosition_d d))
        then Fin 0 else y_d (mVelocity_d d))"
  by (simp add: enforceBounds_d_def Let_def)

subsection \<open>Rounding to binary64\<close>

lemma round64_0 [simp]: "round64 0 = Fin 0"
  by (simp add: round64_def)

lemma rhe_of_int [simp]: "rhe (of_int k) = k"
  by (simp add: rhe_def)

lemma rhe_ge_floor: "\<lfloor>x\<rfloor> \<le> rhe x"
  by (simp add: rhe_def Let_def)

lemma round64_1: "round64 1 = Fin 1"
  by (simp add: round64_def Let_def rhe_def)

lemma round64_m2: "round64 (- 2) = Fin (- 2)"
  by (simp add: round64_def Let_def rhe_def)

lemma round64_m1: "round64 (- 1) = Fin (- 1)"
  by (simp add: round64_def Let_def rhe_def)

lemma log2_ge_of_power_le:
  fixes x :: real
  assumes "2 ^ n \<le> x"
  shows "real n \<le> log 2 x"
proof -
  have "0 < (2::real) ^ n"
    by simp
  with assms have pos: "0 < x"
    by linarith
  have "log 2 (2 ^ n) \<le> log 2 x"
    using assms pos by (subst log_le_cancel_iff) simp_all
  then show ?thesis
    by simp
qed

lemma round64_overflow:
  assumes big: "2 ^ 1024 \<le> \<bar>x\<bar>"
  shows "round64 x = (if 0 < x then PInf else NInf)"
proof -
  define e where "e = \<lfloor>log 2 \<bar>x\<bar>\<rfloor>"
  have "0 < (2::real) ^ 1024"
    by simp
  with big have pos: "0 < \<bar>x\<bar>"
    by linarith
  then have x0: "x \<noteq> 0" by simp
  have "1024 \<le> log 2 \<bar>x\<bar>"
    using log2_ge_of_power_le [OF big] by simp
  then have e: "1024 \<le> e"
    unfolding e_def by (simp add: le_floor_iff)
  then have emax: "max e (- 1022) = e"
    by simp
  have "2 powr of_int e \<le> \<bar>x\<bar>"
    using pos floor_log_eq_powr_iff [of "\<bar>x\<bar>" 2 e] by (simp add: e_def)
  then have low: "2 powi e \<le> \<bar>x\<bar>"
    by (simp add: powr_real_of_int')
  define u :: real where "u = 2 powi (e - 52)"
  have u: "0 < u"
    by (simp add: u_def)
  have split: "(2::real) powi e = 2 ^ 52 * u"
    by (simp add: u_def power_int_diff)
  have "2 ^ 52 \<le> \<bar>x\<bar> / u"
    using low u by (simp add: split pos_le_divide_eq)
  then have "(2::int) ^ 52 \<le> \<lfloor>\<bar>x\<bar> / u\<rfloor>"
    by (simp add: le_floor_iff)
  then have "(2::int) ^ 52 \<le> rhe (\<bar>x\<bar> / u)"
    using rhe_ge_floor [of "\<bar>x\<bar> / u"] by linarith
  then have "(2::real) ^ 52 \<le> of_int (rhe (\<bar>x\<bar> / u))"
    by (metis of_int_le_iff of_int_numeral of_int_power)
  then have "2 ^ 52 * u \<le> of_int (rhe (\<bar>x\<bar> / u)) * u"
    using u by (simp add: mult_right_mono)
  moreover have "(2::real) ^ 1024 \<le> 2 powi e"
    using e power_int_increasing [of 1024 e "2::real"] by simp
  ultimately have "2 ^ 1024 \<le> of_int (rhe (\<bar>x\<bar> / u)) * u"
    using split by linarith
  then show ?thesis
    using x0 by (simp add: round64_def Let_def emax u_def flip: e_def)
qed



subsection \<open>Evaluation in binary64 and in exact arithmetic\<close>

lemmas ieee_ops = binary64_def exact_def ieee_def ieee_add_def ieee_mul_def ieee_div_def
  ieee_sqrt_def with_sign_def zero_of_def inf_of_def

lemmas vec_d_ops = vec_add_d_def vec_scale_d_def vec_length_d_def

lemma b64_mul_fin:
  "fmul binary64 (Fin a) (Fin b) = with_sign ((a < 0) \<noteq> (b < 0)) (round64 (a * b))"
  by (simp add: binary64_def ieee_def ieee_mul_def)

lemma b64_add_fin:
  "fadd binary64 (Fin a) (Fin b) = (if a + b = 0 then Fin 0 else round64 (a + b))"
  by (simp add: binary64_def ieee_def ieee_add_def zero_of_def)

lemma b64_div_fin:
  "b \<noteq> 0 \<Longrightarrow>
   fdiv binary64 (Fin a) (Fin b) = with_sign ((a < 0) \<noteq> (b < 0)) (round64 (a / b))"
  by (simp add: binary64_def ieee_def ieee_div_def)

lemma b64_sqrt_fin:
  "0 \<le> a \<Longrightarrow> fsqrt binary64 (Fin a) = round64 (sqrt a)"
  by (simp add: binary64_def ieee_def ieee_sqrt_def)

lemma b64_special:
  "fmul binary64 NInf NInf = PInf"
  "fmul binary64 NInf (Fin 0) = NaN"
  "fmul binary64 NaN b = NaN"
  "fadd binary64 (Fin a) NInf = NInf"
  "fadd binary64 (Fin a) PInf = PInf"
  "fadd binary64 PInf (Fin a) = PInf"
  "fadd binary64 (Fin a) NaN = NaN"
  "fsqrt binary64 PInf = PInf"
  "fdiv binary64 (Fin a) PInf = (if a < 0 then NegZero else Fin 0)"
  by (simp_all add: binary64_def ieee_def ieee_mul_def ieee_add_def ieee_div_def ieee_sqrt_def
      inf_of_def zero_of_def)

lemma b64_evals:
  "fmul binary64 (Fin 0) (Fin 1) = Fin 0"
  "fmul binary64 (Fin 0) (Fin 0) = Fin 0"
  "fmul binary64 (Fin (- 2)) (Fin 1) = Fin (- 2)"
  "fmul binary64 (Fin 1) (Fin 1) = Fin 1"
  "fmul binary64 (Fin 1) (Fin 0) = Fin 0"
  "fadd binary64 (Fin 0) (Fin 0) = Fin 0"
  "fadd binary64 (Fin 0) (Fin (- 2)) = Fin (- 2)"
  "fadd binary64 (Fin 1) (Fin 0) = Fin 1"
  "fadd binary64 (Fin 1) (Fin (- 2)) = Fin (- 1)"
  "fdiv binary64 (Fin 1) (Fin 1) = Fin 1"
  "fdiv binary64 (Fin 0) (Fin 1) = Fin 0"
  "fsqrt binary64 (Fin 0) = Fin 0"
  "fsqrt binary64 (Fin 1) = Fin 1"
  by (simp_all add: b64_mul_fin b64_add_fin b64_div_fin b64_sqrt_fin with_sign_def
      round64_1 round64_m2 round64_m1)

lemma b64_mul_zero_nonneg: "0 \<le> b \<Longrightarrow> fmul binary64 (Fin 0) (Fin b) = Fin 0"
  by (simp add: b64_mul_fin with_sign_def)

lemma b64_mul_overflow:
  "a * b \<le> - (2 ^ 1024) \<Longrightarrow> fmul binary64 (Fin a) (Fin b) = NInf"
  "2 ^ 1024 \<le> a * b \<Longrightarrow> fmul binary64 (Fin a) (Fin b) = PInf"
proof -
  show "fmul binary64 (Fin a) (Fin b) = NInf" if "a * b \<le> - (2 ^ 1024)"
  proof -
    have "0 < (2::real) ^ 1024"
      by simp
    with that have neg: "a * b < 0"
      by linarith
    with that have "(2::real) ^ 1024 \<le> \<bar>a * b\<bar>"
      by linarith
    from round64_overflow [OF this] neg have "round64 (a * b) = NInf"
      by simp
    then show ?thesis
      by (simp add: b64_mul_fin with_sign_def)
  qed
  show "fmul binary64 (Fin a) (Fin b) = PInf" if "2 ^ 1024 \<le> a * b"
  proof -
    have "0 < (2::real) ^ 1024"
      by simp
    with that have pos: "0 < a * b"
      by linarith
    with that have "(2::real) ^ 1024 \<le> \<bar>a * b\<bar>"
      by linarith
    from round64_overflow [OF this] pos have "round64 (a * b) = PInf"
      by simp
    then show ?thesis
      by (simp add: b64_mul_fin with_sign_def)
  qed
qed

lemma overflow_trace_integrate:
  "integrate_d binary64
     \<lparr>mId_d = 0, mParameters_d = \<lparr>mass_d = Fin 1, maxThrust_d = Fin 1, maxSpeed_d = Fin 4\<rparr>,
      mPosition_d = \<lparr>x_d = Fin 1, y_d = Fin 1\<rparr>, mVelocity_d = \<lparr>x_d = Fin 0, y_d = Fin 0\<rparr>,
      mThrust_d = \<lparr>x_d = Fin 0, y_d = Fin 0\<rparr>\<rparr>
     (Fin (2 ^ 1023))
     \<lparr>gravity_d = \<lparr>x_d = Fin 0, y_d = Fin (- 2)\<rparr>, width_d = Fin 2, height_d = Fin 2\<rparr>
   = \<lparr>mId_d = 0, mParameters_d = \<lparr>mass_d = Fin 1, maxThrust_d = Fin 1, maxSpeed_d = Fin 4\<rparr>,
      mPosition_d = \<lparr>x_d = Fin 1, y_d = NaN\<rparr>, mVelocity_d = \<lparr>x_d = Fin 0, y_d = NaN\<rparr>,
      mThrust_d = \<lparr>x_d = Fin 0, y_d = Fin 0\<rparr>\<rparr>"
  unfolding integrate_d_def Let_def vec_d_ops
  by (simp add: b64_evals b64_special b64_mul_zero_nonneg b64_mul_overflow dless_def)



lemma deq_Fin [simp]: "deq (Fin a) (Fin b) \<longleftrightarrow> a = b"
  by (simp add: deq_def)

lemma dle_Fin [simp]: "dle (Fin a) (Fin b) \<longleftrightarrow> a \<le> b"
  by (simp add: dle_def)

lemma dless_Fin [simp]: "dless (Fin a) (Fin b) \<longleftrightarrow> a < b"
  by (simp add: dless_def)

lemma order_PInf [simp]:
  "\<not> deq PInf (Fin a)" "\<not> dle PInf (Fin a)" "dless (Fin a) PInf"
  by (simp_all add: deq_def dle_def dless_def)

lemma finite_val_with_sign [simp]: "finite_val (with_sign s (Fin r)) = r"
  by (simp add: with_sign_def)













subsection \<open>Relative error and range of intermediate values\<close>

lemma theta_pos: "0 < theta" and theta_le: "theta \<le> 1" and theta_half: "1 / 2 \<le> theta"
  by (simp_all add: theta_def)


lemma theta_pow_mono: "j \<le> k \<Longrightarrow> theta ^ k \<le> theta ^ j"
  using theta_pos theta_le by (simp add: power_decreasing)



lemma near_sym: "near k a b \<Longrightarrow> near k b a"
  by (simp add: near_def)

lemma near_mono:
  assumes "j \<le> k" "0 \<le> a" "0 \<le> b" "near j a b"
  shows "near k a b"
proof -
  have "b * theta ^ k \<le> b * theta ^ j" "a * theta ^ k \<le> a * theta ^ j"
    using assms theta_pow_mono [OF assms(1)] by (simp_all add: mult_left_mono)
  with assms(4) show ?thesis
    by (auto simp add: near_def)
qed
















subsection \<open>Rounding error of the binary64 operations\<close>









subsection \<open>Rounding error of the stored thrust\<close>












section \<open>The claims\<close>

subsection \<open>Claim C1\<close>

text \<open>
  Claim C1. After \<open>step now\<close> the in-transit vector is the former one without the
  messages with \<open>deliverTime \<le> now\<close>, the others unchanged and in their order. The
  dropped vector is not modified, and not read: the call gives the same result with any
  other dropped vector in its place. The number of nodes is unchanged, and node \<open>i\<close> is
  the former node with, appended to its inbox, the receipts of the due messages whose
  recipient name is registered at \<open>i\<close>, in the order of the in-transit vector. So a due
  message to a registered name is in the inbox of the recipient after the call, a due
  message to an unregistered name is in no inbox, and no receipt is written for a message
  that is not due. A message in transit stays in transit through every sequence of sends
  and of steps with times below its \<open>deliverTime\<close>, so that the first step with
  \<open>now \<ge> deliverTime\<close> finds it and delivers it.
\<close>

theorem net_step_delivers_due:
  "inTransit (net_step n now) = filter (\<lambda>m. \<not> deliverTime m \<le> now) (inTransit n)
   \<and> droppedMessages (net_step n now) = droppedMessages n
   \<and> net_step (n\<lparr>droppedMessages := ds\<rparr>) now = (net_step n now)\<lparr>droppedMessages := ds\<rparr>
   \<and> length (nodes (net_step n now)) = length (nodes n)
   \<and> (\<forall>i<length (nodes n).
         nodes (net_step n now) ! i
           = (nodes n ! i)\<lparr>inbox := inbox (nodes n ! i)
               @ map receipt
                   (filter (\<lambda>m. deliverTime m \<le> now \<and> getNode n (msg_to m) = Some i)
                      (inTransit n))\<rparr>)
   \<and> (\<forall>m\<in>set (inTransit n).
         advancesBefore (deliverTime m) cs \<longrightarrow> m \<in> set (inTransit (run n cs)))"
  by (simp add: net_step_inTransit net_step_droppedMessages_update net_step_nth_node
      getNode_def run_keeps_in_transit)

theorem net_step_delivers_due_witness:
  "1 < length (nodes example_busy)
   \<and> example_yo \<in> set (inTransit example_busy)
   \<and> advancesBefore (deliverTime example_yo) [Advance 1, Advance 2]
   \<and> inTransit example_busy = [example_hi, example_lost, example_yo]
   \<and> inTransit (net_step example_busy 1) = [example_yo]
   \<and> inbox (nodes (net_step example_busy 1) ! 1) = [receipt example_hi]
   \<and> example_yo \<in> set (inTransit (run example_busy [Advance 1, Advance 2]))"
proof -
  note t = net_step_delivers_due [of example_busy 1 "[]" "[Advance 1, Advance 2]"]
  have len: "1 < length (nodes example_busy)"
    by (simp add: example_busy_fields)
  have mem: "example_yo \<in> set (inTransit example_busy)"
    by (simp add: example_busy_fields)
  have before: "advancesBefore (deliverTime example_yo) [Advance 1, Advance 2]"
    by simp
  have a: "inTransit (net_step example_busy 1) = [example_yo]"
    using t by (simp add: example_busy_fields)
  from t len have "nodes (net_step example_busy 1) ! 1
           = (nodes example_busy ! 1)\<lparr>inbox := inbox (nodes example_busy ! 1)
               @ map receipt
                   (filter (\<lambda>m. deliverTime m \<le> 1 \<and> getNode example_busy (msg_to m) = Some 1)
                      (inTransit example_busy))\<rparr>"
    by blast
  then have b: "inbox (nodes (net_step example_busy 1) ! 1) = [receipt example_hi]"
    by (simp add: example_busy_fields getNode_def new_Node_def)
  from t mem before have c: "example_yo \<in> set (inTransit (run example_busy [Advance 1, Advance 2]))"
    by blast
  from len mem before a b c show ?thesis
    by (simp add: example_busy_fields)
qed

subsection \<open>Claim C2\<close>

text \<open>
  Claim C2. One \<open>step dt\<close> of the simulator sets the clock to the old time plus \<open>dt\<close>
  and updates every drone with \<open>dt\<close>. What it does to the network is exactly a sequence
  of calls: when the new clock has reached \<open>mNextReportTime\<close>, one \<open>sendMessage\<close> per
  drone, in the order of the drones, from the node of the drone to \<open>HQ\<close>, with the
  status text of the drone as it is after its update and with the new clock as time;
  then, in both cases, one network \<open>step\<close> at the new clock. After it no message with
  \<open>deliverTime\<close> at or below the new clock is in transit, the telemetry of this step
  included. In the reporting case \<open>mNextReportTime\<close> has grown by \<open>mReportInterval\<close>
  once, however far the clock is beyond it, the message counter has grown by the number
  of drones, the log file has, after its old rows, one send or drop row per drone with
  these values, and every row after those is a deliver row of this step. In the other
  case \<open>mNextReportTime\<close> and the message counter are unchanged and the network is the
  one that \<open>step\<close> alone gives.
\<close>

theorem sim_step_order:
  "mSimTime (sim_step fmt s dt) = mSimTime s + dt
   \<and> mDrones (sim_step fmt s dt) = map (\<lambda>d. update d dt (mWorld s)) (mDrones s)
   \<and> mComms (sim_step fmt s dt)
       = run (mComms s)
           ((if mNextReportTime s \<le> mSimTime s + dt
             then map (\<lambda>d. Send (''Drone'' @ to_string (mId d)) ''HQ'' (statusPayload fmt d)
                              (mSimTime s + dt))
                    (mDrones (sim_step fmt s dt))
             else [])
            @ [Advance (mSimTime s + dt)])
   \<and> (\<forall>m\<in>set (inTransit (mComms (sim_step fmt s dt))). mSimTime s + dt < deliverTime m)
   \<and> (if mNextReportTime s \<le> mSimTime s + dt
      then mNextReportTime (sim_step fmt s dt) = mNextReportTime s + mReportInterval s
         \<and> nextMessageId (mComms (sim_step fmt s dt))
             = nextMessageId (mComms s) + int (length (mDrones s))
         \<and> (\<forall>k<length (mDrones s).
               row_time (logFile (mComms (sim_step fmt s dt)) ! (length (logFile (mComms s)) + k))
                 = mSimTime s + dt
               \<and> row_id (logFile (mComms (sim_step fmt s dt)) ! (length (logFile (mComms s)) + k))
                   = nextMessageId (mComms s) + int k
               \<and> row_from (logFile (mComms (sim_step fmt s dt)) ! (length (logFile (mComms s)) + k))
                   = ''Drone'' @ to_string (mId (mDrones (sim_step fmt s dt) ! k))
               \<and> row_to (logFile (mComms (sim_step fmt s dt)) ! (length (logFile (mComms s)) + k))
                   = ''HQ''
               \<and> row_payload (logFile (mComms (sim_step fmt s dt)) ! (length (logFile (mComms s)) + k))
                   = statusPayload fmt (mDrones (sim_step fmt s dt) ! k)
               \<and> row_event (logFile (mComms (sim_step fmt s dt)) ! (length (logFile (mComms s)) + k))
                   \<noteq> Ev_deliver)
         \<and> (\<forall>j. length (logFile (mComms s)) + length (mDrones s) \<le> j
                 \<and> j < length (logFile (mComms (sim_step fmt s dt))) \<longrightarrow>
               row_event (logFile (mComms (sim_step fmt s dt)) ! j) = Ev_deliver
               \<and> row_time (logFile (mComms (sim_step fmt s dt)) ! j) = mSimTime s + dt)
      else mNextReportTime (sim_step fmt s dt) = mNextReportTime s
         \<and> mComms (sim_step fmt s dt) = net_step (mComms s) (mSimTime s + dt)
         \<and> nextMessageId (mComms (sim_step fmt s dt)) = nextMessageId (mComms s)
         \<and> droppedMessages (mComms (sim_step fmt s dt)) = droppedMessages (mComms s))"
proof -
  have clock: "mSimTime (sim_step fmt s dt) = mSimTime s + dt"
    by (rule sim_step_fields)
  have drones: "mDrones (sim_step fmt s dt) = map (\<lambda>d. update d dt (mWorld s)) (mDrones s)"
    by (rule mDrones_sim_step)
  have comms: "mComms (sim_step fmt s dt)
       = run (mComms s)
           ((if mNextReportTime s \<le> mSimTime s + dt
             then map (\<lambda>d. Send (''Drone'' @ to_string (mId d)) ''HQ'' (statusPayload fmt d)
                              (mSimTime s + dt))
                    (mDrones (sim_step fmt s dt))
             else [])
            @ [Advance (mSimTime s + dt)])"
    unfolding drones by (simp only: sim_step_comms telemetry_def [abs_def])
  have due: "\<forall>m\<in>set (inTransit (mComms (sim_step fmt s dt))). mSimTime s + dt < deliverTime m"
    using sim_step_nothing_due by blast
  show ?thesis
  proof (cases "mNextReportTime s \<le> mSimTime s + dt")
    case True
    note r = sim_step_report [OF True, where fmt = fmt]
    from clock drones comms due r(1) r(2) r(3) r(4) True show ?thesis
      by (simp only: if_True simp_thms) blast
  next
    case False
    note q = sim_step_silent [OF False, where fmt = fmt]
    from clock drones comms due q False show ?thesis
      by (simp only: if_False simp_thms)
  qed
qed

theorem sim_step_order_witness:
  "mNextReportTime example_sim \<le> mSimTime example_sim + 10
   \<and> 0 < length (mDrones example_sim)
   \<and> mSimTime (sim_step example_fmt example_sim 10) = 10
   \<and> mNextReportTime example_sim = 1 / 2
   \<and> mNextReportTime (sim_step example_fmt example_sim 10) = 1
   \<and> nextMessageId (mComms example_sim) = 1
   \<and> nextMessageId (mComms (sim_step example_fmt example_sim 10)) = 2
   \<and> row_from (logFile (mComms (sim_step example_fmt example_sim 10)) ! 0) = ''Drone0''
   \<and> row_to (logFile (mComms (sim_step example_fmt example_sim 10)) ! 0) = ''HQ''
   \<and> row_time (logFile (mComms (sim_step example_fmt example_sim 10)) ! 0) = 10
   \<and> row_payload (logFile (mComms (sim_step example_fmt example_sim 10)) ! 0)
       = ''STATUS pos=(0.00,0.00) vel=(0.00,0.00)''"
proof -
  note t = sim_step_order [of example_fmt example_sim 10]
  have h1: "mNextReportTime example_sim \<le> mSimTime example_sim + 10"
    by (simp add: example_sim_fields)
  have h2: "0 < length (mDrones example_sim)"
    by (simp add: example_sim_fields)
  from t have a: "mSimTime (sim_step example_fmt example_sim 10) = 10"
    by (simp add: example_sim_fields)
  note r = t [unfolded if_P [OF h1]]
  from r have b: "mNextReportTime (sim_step example_fmt example_sim 10)
           = mNextReportTime example_sim + mReportInterval example_sim"
    and c: "nextMessageId (mComms (sim_step example_fmt example_sim 10))
             = nextMessageId (mComms example_sim) + int (length (mDrones example_sim))"
    by blast+
  from r h2 have row:
    "row_time (logFile (mComms (sim_step example_fmt example_sim 10))
        ! (length (logFile (mComms example_sim)) + 0)) = mSimTime example_sim + 10
     \<and> row_from (logFile (mComms (sim_step example_fmt example_sim 10))
        ! (length (logFile (mComms example_sim)) + 0))
         = ''Drone'' @ to_string (mId (mDrones (sim_step example_fmt example_sim 10) ! 0))
     \<and> row_to (logFile (mComms (sim_step example_fmt example_sim 10))
        ! (length (logFile (mComms example_sim)) + 0)) = ''HQ''
     \<and> row_payload (logFile (mComms (sim_step example_fmt example_sim 10))
        ! (length (logFile (mComms example_sim)) + 0))
         = statusPayload example_fmt (mDrones (sim_step example_fmt example_sim 10) ! 0)"
    by blast
  have d: "mId (mDrones (sim_step example_fmt example_sim 10) ! 0) = 0"
    by (simp add: mDrones_sim_step example_sim_fields update_def integrate_def enforceBounds_def
        new_Drone_def Let_def)
  from h1 h2 a b c row d show ?thesis
    by (simp add: example_sim_fields to_string_0 statusPayload_def example_fmt_def)
qed

subsection \<open>Claim C3\<close>

text \<open>
  Claim C3. When the recipient of a message is not registered, \<open>deliver\<close> prints the
  delivery-failed line and changes nothing else. A step that meets such a message when it
  is due gives the same nodes, delivered count, total latency and in-transit vector as
  the step on the network without that message, and one more failure line. Scenario C:
  on a network with \<open>dropProb = 0\<close>, \<open>baseLatency = 1\<close>, \<open>jitter = 0\<close>, nothing in
  transit and no node Ghost, after \<open>sendMessage A Ghost p 0\<close> and \<open>step 1\<close> the delivered
  count, the total latency and all nodes are as before, nothing is in transit, and the
  console has the send line and the failure line (the generator yields values in
  \<open>[0,1)\<close>, of which only \<open>0 \<le> rng 0\<close> is used).
\<close>

theorem unknown_recipient_is_discarded:
  "(getNode n (msg_to m) = None \<longrightarrow>
      deliver n m now
        = n\<lparr>console := console n @ [DeliveryFailedLine now (msg_to m) (msg_id m)]\<rparr>)
   \<and> (getNode n (msg_to m) = None \<and> deliverTime m \<le> now \<and> inTransit n = xs @ m # ys \<longrightarrow>
        nodes (net_step n now) = nodes (net_step (n\<lparr>inTransit := xs @ ys\<rparr>) now)
        \<and> deliveredCount (net_step n now)
            = deliveredCount (net_step (n\<lparr>inTransit := xs @ ys\<rparr>) now)
        \<and> totalLatency (net_step n now)
            = totalLatency (net_step (n\<lparr>inTransit := xs @ ys\<rparr>) now)
        \<and> inTransit (net_step n now) = inTransit (net_step (n\<lparr>inTransit := xs @ ys\<rparr>) now)
        \<and> deliveryFailures (net_step n now)
            = Suc (deliveryFailures (net_step (n\<lparr>inTransit := xs @ ys\<rparr>) now)))
   \<and> (dropProb c = 0 \<and> baseLatency c = 1 \<and> jitter c = 0 \<and> 0 \<le> rng c 0
        \<and> inTransit c = [] \<and> getNode c ''Ghost'' = None \<longrightarrow>
        deliveredCount (net_step (sendMessage c ''A'' ''Ghost'' p 0) 1) = deliveredCount c
        \<and> totalLatency (net_step (sendMessage c ''A'' ''Ghost'' p 0) 1) = totalLatency c
        \<and> nodes (net_step (sendMessage c ''A'' ''Ghost'' p 0) 1) = nodes c
        \<and> inTransit (net_step (sendMessage c ''A'' ''Ghost'' p 0) 1) = []
        \<and> console (net_step (sendMessage c ''A'' ''Ghost'' p 0) 1)
            = console c @ [SendLine 0 ''A'' ''Ghost'' (nextMessageId c) (length p),
                           DeliveryFailedLine 1 ''Ghost'' (nextMessageId c)])"
proof (intro conjI impI; (elim conjE)?)
  assume "getNode n (msg_to m) = None"
  then show "deliver n m now
        = n\<lparr>console := console n @ [DeliveryFailedLine now (msg_to m) (msg_id m)]\<rparr>"
    by (rule deliver_unknown)
next
  assume "getNode n (msg_to m) = None" and due: "deliverTime m \<le> now"
    and at: "inTransit n = xs @ m # ys"
  then have unknown: "nodeIndex n (msg_to m) = None"
    by (simp add: getNode_def)
  note rest = net_step_without_unknown [OF unknown due at]
  show "nodes (net_step n now) = nodes (net_step (n\<lparr>inTransit := xs @ ys\<rparr>) now)"
    by (rule rest)
  show "deliveredCount (net_step n now)
            = deliveredCount (net_step (n\<lparr>inTransit := xs @ ys\<rparr>) now)"
    by (rule rest)
  show "totalLatency (net_step n now)
            = totalLatency (net_step (n\<lparr>inTransit := xs @ ys\<rparr>) now)"
    by (rule rest)
  show "inTransit (net_step n now) = inTransit (net_step (n\<lparr>inTransit := xs @ ys\<rparr>) now)"
    by (rule rest)
  show "deliveryFailures (net_step n now)
            = Suc (deliveryFailures (net_step (n\<lparr>inTransit := xs @ ys\<rparr>) now))"
    by (rule rest)
next
  assume c: "dropProb c = 0" "baseLatency c = 1" "jitter c = 0" "0 \<le> rng c 0"
    "inTransit c = []" and "getNode c ''Ghost'' = None"
  then have ghost: "nodeIndex c ''Ghost'' = None"
    by (simp add: getNode_def)
  note sc = scenario_C [OF c ghost]
  show "deliveredCount (net_step (sendMessage c ''A'' ''Ghost'' p 0) 1) = deliveredCount c"
    by (rule sc)
  show "totalLatency (net_step (sendMessage c ''A'' ''Ghost'' p 0) 1) = totalLatency c"
    by (rule sc)
  show "nodes (net_step (sendMessage c ''A'' ''Ghost'' p 0) 1) = nodes c"
    by (rule sc)
  show "inTransit (net_step (sendMessage c ''A'' ''Ghost'' p 0) 1) = []"
    by (rule sc)
  show "console (net_step (sendMessage c ''A'' ''Ghost'' p 0) 1)
            = console c @ [SendLine 0 ''A'' ''Ghost'' (nextMessageId c) (length p),
                           DeliveryFailedLine 1 ''Ghost'' (nextMessageId c)]"
    by (rule sc)
qed

theorem unknown_recipient_is_discarded_witness:
  "getNode example_busy (msg_to example_lost) = None
   \<and> deliverTime example_lost \<le> 1
   \<and> inTransit example_busy = [example_hi] @ example_lost # [example_yo]
   \<and> deliver example_busy example_lost 1
       = example_busy\<lparr>console := console example_busy @ [DeliveryFailedLine 1 ''Ghost'' 2]\<rparr>
   \<and> nodes (net_step example_busy 1)
       = nodes (net_step (example_busy\<lparr>inTransit := [example_hi] @ [example_yo]\<rparr>) 1)
   \<and> deliveredCount (net_step example_busy 1) = 1
   \<and> deliveredCount (net_step (example_busy\<lparr>inTransit := [example_hi] @ [example_yo]\<rparr>) 1) = 1
   \<and> dropProb example_net = 0 \<and> baseLatency example_net = 1 \<and> jitter example_net = 0
   \<and> 0 \<le> rng example_net 0 \<and> inTransit example_net = [] \<and> getNode example_net ''Ghost'' = None
   \<and> deliveredCount (net_step (sendMessage example_net ''A'' ''Ghost'' ''lost'' 0) 1) = 0
   \<and> nodes (net_step (sendMessage example_net ''A'' ''Ghost'' ''lost'' 0) 1)
       = [new_Node ''A'', new_Node ''B'']
   \<and> console (net_step (sendMessage example_net ''A'' ''Ghost'' ''lost'' 0) 1)
       = [SendLine 0 ''A'' ''Ghost'' 1 4, DeliveryFailedLine 1 ''Ghost'' 1]"
proof -
  note t = unknown_recipient_is_discarded
    [of example_busy example_lost 1 "[example_hi]" "[example_yo]" example_net "''lost''"]
  have h1: "getNode example_busy (msg_to example_lost) = None"
    by (simp add: getNode_def example_busy_fields)
  have h2: "deliverTime example_lost \<le> 1"
    by simp
  have h3: "inTransit example_busy = [example_hi] @ example_lost # [example_yo]"
    by (simp add: example_busy_fields)
  have h4: "dropProb example_net = 0 \<and> baseLatency example_net = 1 \<and> jitter example_net = 0
   \<and> 0 \<le> rng example_net 0 \<and> inTransit example_net = [] \<and> getNode example_net ''Ghost'' = None"
    by (simp add: example_net_fields getNode_def)
  from t h1 have a: "deliver example_busy example_lost 1
       = example_busy\<lparr>console := console example_busy @ [DeliveryFailedLine 1 ''Ghost'' 2]\<rparr>"
    by simp
  from t h1 h2 h3 have b: "nodes (net_step example_busy 1)
       = nodes (net_step (example_busy\<lparr>inTransit := [example_hi] @ [example_yo]\<rparr>) 1)"
    and c: "deliveredCount (net_step example_busy 1)
       = deliveredCount (net_step (example_busy\<lparr>inTransit := [example_hi] @ [example_yo]\<rparr>) 1)"
    by blast+
  have d: "deliveredCount (net_step example_busy 1) = 1"
    by (simp add: net_step_deliveredCount example_busy_fields)
  from t h4 have e: "deliveredCount (net_step (sendMessage example_net ''A'' ''Ghost'' ''lost'' 0) 1) = deliveredCount example_net
        \<and> nodes (net_step (sendMessage example_net ''A'' ''Ghost'' ''lost'' 0) 1) = nodes example_net
        \<and> console (net_step (sendMessage example_net ''A'' ''Ghost'' ''lost'' 0) 1)
            = console example_net @ [SendLine 0 ''A'' ''Ghost'' (nextMessageId example_net) (length ''lost''),
                           DeliveryFailedLine 1 ''Ghost'' (nextMessageId example_net)]"
    by blast
  from h1 h2 h3 h4 a b c d e show ?thesis
    by (simp add: example_net_fields)
qed

subsection \<open>Claim C4\<close>

text \<open>
  Claim C4. Each \<open>sendMessage\<close> appends its message to exactly one of the two vectors:
  to \<open>droppedMessages\<close> when the message is flagged dropped, to \<open>inTransit\<close> otherwise.
  For a network made by the constructor and any number of \<open>addNode\<close> calls, and every
  sequence of sends and steps followed by a step at a time \<open>now\<close> that is at least the
  \<open>deliverTime\<close> of every message the sequence sent: if the console shows no failed
  delivery, the delivered count plus the number of dropped messages is the number of
  sends, and nothing is left in transit.
\<close>

theorem delivered_plus_dropped_is_sent:
  "(if dropped (sentMessage n s r body t)
    then droppedMessages (sendMessage n s r body t)
           = droppedMessages n @ [sentMessage n s r body t]
         \<and> inTransit (sendMessage n s r body t) = inTransit n
    else inTransit (sendMessage n s r body t) = inTransit n @ [sentMessage n s r body t]
         \<and> droppedMessages (sendMessage n s r body t) = droppedMessages n)
   \<and> (let n0 = foldl addNode (new_Network bl jt dp g) names;
           final = run n0 (cs @ [Advance now])
       in (\<forall>m\<in>set (sentMessages n0 cs). deliverTime m \<le> now) \<and> deliveryFailures final = 0
          \<longrightarrow> deliveredCount final + int (length (droppedMessages final)) = int (sends cs)
              \<and> inTransit final = [])"
proof -
  let ?n0 = "foldl addNode (new_Network bl jt dp g) names"
  have fresh: "inTransit ?n0 = []" "droppedMessages ?n0 = []" "deliveredCount ?n0 = 0"
    "deliveryFailures ?n0 = 0"
    by (simp_all add: deliveryFailures_def)
  show ?thesis
    using sendMessage_classifies [of n s r body t] all_delivered [OF fresh, of cs now]
    by (simp add: Let_def)
qed

theorem delivered_plus_dropped_is_sent_witness:
  "map deliverTime (sentMessages (foldl addNode (new_Network 1 0 (1 / 2) (\<lambda>i. if i < 2 then 0 else 9 / 10))
                   [''A'', ''B''])
        [Send ''A'' ''B'' ''hi'' 0, Send ''A'' ''B'' ''yo'' 0]) = [1, 1]
   \<and> deliveryFailures (run (foldl addNode (new_Network 1 0 (1 / 2) (\<lambda>i. if i < 2 then 0 else 9 / 10))
                   [''A'', ''B''])
        ([Send ''A'' ''B'' ''hi'' 0, Send ''A'' ''B'' ''yo'' 0] @ [Advance 1])) = 0
   \<and> length (droppedMessages (run (foldl addNode (new_Network 1 0 (1 / 2) (\<lambda>i. if i < 2 then 0 else 9 / 10))
                   [''A'', ''B''])
        ([Send ''A'' ''B'' ''hi'' 0, Send ''A'' ''B'' ''yo'' 0] @ [Advance 1]))) = 1
   \<and> deliveredCount (run (foldl addNode (new_Network 1 0 (1 / 2) (\<lambda>i. if i < 2 then 0 else 9 / 10))
                   [''A'', ''B''])
        ([Send ''A'' ''B'' ''hi'' 0, Send ''A'' ''B'' ''yo'' 0] @ [Advance 1])) = 1
   \<and> sends [Send ''A'' ''B'' ''hi'' 0, Send ''A'' ''B'' ''yo'' 0] = 2"
proof -
  let ?cs = "[Send ''A'' ''B'' ''hi'' 0, Send ''A'' ''B'' ''yo'' 0]"
  have n0: "foldl addNode (new_Network 1 0 (1 / 2) (\<lambda>i. if i < 2 then 0 else 9 / 10)) [''A'', ''B'']
              = example_lossy"
    by (simp add: example_lossy_def)
  note t = delivered_plus_dropped_is_sent
    [of example_lossy "''A''" "''B''" "''hi''" 0 1 0 "1 / 2" "\<lambda>i. if i < 2 then 0 else 9 / 10"
      "[''A'', ''B'']" ?cs 1, unfolded Let_def n0]
  have h1: "\<forall>m\<in>set (sentMessages example_lossy ?cs). deliverTime m \<le> 1"
    by (simp add: sentMessage_eq stored_def example_lossy_fields)
  have h2: "deliveryFailures (run example_lossy (?cs @ [Advance 1])) = 0"
    by (simp add: net_step_failures sendMessage_inTransit example_lossy_fields stored_def)
  have a: "length (droppedMessages (run example_lossy (?cs @ [Advance 1]))) = 1"
    by (simp add: sendMessage_droppedMessages example_lossy_fields)
  from t h1 h2 have "deliveredCount (run example_lossy (?cs @ [Advance 1]))
      + int (length (droppedMessages (run example_lossy (?cs @ [Advance 1])))) = int (sends ?cs)"
    by blast
  with a have b: "deliveredCount (run example_lossy (?cs @ [Advance 1])) = 1"
    by simp
  have times: "map deliverTime (sentMessages example_lossy ?cs) = [1, 1]"
    by (simp add: sentMessage_eq stored_def example_lossy_fields)
  from times h2 a b show ?thesis
    unfolding n0 by simp
qed

subsection \<open>Claim C5\<close>

text \<open>
  Claim C5. For every string, \<open>xorCipher\<close> with the fixed key applied twice gives the
  string back. The message stored by \<open>sendMessage\<close> carries the text as \<open>payload\<close> and
  its \<open>xorCipher\<close> image as \<open>cipherText\<close>; when it is not dropped, due at the next step
  and addressed to a node registered at a position \<open>i\<close> of \<open>nodes\<close>, the last record of
  that inbox after the step has its id and, as payload, the text that was passed to
  \<open>sendMessage\<close>.
\<close>

theorem xorCipher_round_trip:
  "xorCipher (xorCipher body encryptionKey) encryptionKey = body
   \<and> payload (sentMessage n s r body t) = body
   \<and> cipherText (sentMessage n s r body t) = xorCipher body encryptionKey
   \<and> (\<forall>i<length (nodes n).
        getNode n r = Some i \<and> \<not> dropped (sentMessage n s r body t)
          \<and> deliverTime (sentMessage n s r body t) \<le> now \<longrightarrow>
        inbox (nodes (net_step (sendMessage n s r body t) now) ! i) \<noteq> []
        \<and> rm_id (last (inbox (nodes (net_step (sendMessage n s r body t) now) ! i)))
            = msg_id (sentMessage n s r body t)
        \<and> rm_payload (last (inbox (nodes (net_step (sendMessage n s r body t) now) ! i)))
            = body)"
  by (simp add: xorCipher_involution sentMessage_fields getNode_def send_then_step_inbox
      receipt_def)

theorem xorCipher_round_trip_witness:
  "1 < length (nodes example_net) \<and> getNode example_net ''B'' = Some 1
   \<and> \<not> dropped (sentMessage example_net ''A'' ''B'' ''hi'' 0)
   \<and> deliverTime (sentMessage example_net ''A'' ''B'' ''hi'' 0) \<le> 1
   \<and> xorCipher (xorCipher ''hi'' encryptionKey) encryptionKey = ''hi''
   \<and> rm_payload (last (inbox (nodes (net_step (sendMessage example_net ''A'' ''B'' ''hi'' 0) 1) ! 1)))
       = ''hi''"
proof -
  note t = xorCipher_round_trip [of "''hi''" example_net "''A''" "''B''" 0 1]
  have h1: "1 < length (nodes example_net)"
    by (simp add: example_net_fields)
  have h2: "getNode example_net ''B'' = Some 1"
    by (simp add: getNode_def example_net_fields)
  have h3: "\<not> dropped (sentMessage example_net ''A'' ''B'' ''hi'' 0)"
    by (simp add: sentMessage_eq stored_def example_net_fields)
  have h4: "deliverTime (sentMessage example_net ''A'' ''B'' ''hi'' 0) \<le> 1"
    by (simp add: sentMessage_eq stored_def example_net_fields)
  from t have a: "xorCipher (xorCipher ''hi'' encryptionKey) encryptionKey = ''hi''"
    by blast
  from t h1 h2 h3 h4
  have b: "rm_payload (last (inbox (nodes (net_step (sendMessage example_net ''A'' ''B'' ''hi'' 0) 1) ! 1)))
       = ''hi''"
    by blast
  from h1 h2 h3 h4 a b show ?thesis
    by (intro conjI)
qed

subsection \<open>Claim C6\<close>

text \<open>
  Claim C6 (Scenario A). The world has gravity \<open>(0, -9.8)\<close> and width and height 100.
  A simulator is constructed for it, one drone with mass 1, maxThrust 10 and maxSpeed 0
  is added at \<open>(50, 50)\<close>, and its thrust is cleared. After one \<open>step\<close> with
  \<open>dt = 1\<close> the drone has velocity \<open>(0, -9.8)\<close> and position \<open>(50, 40.2)\<close>,
  whatever the generator of the network and the number formatting are.
\<close>

theorem scenario_A:
  "(let world = \<lparr>gravity = \<lparr>vx = 0, vy = - 9.8\<rparr>, width = 100, height = 100\<rparr>;
        (i, s1) = addDrone (new_Simulator world r) \<lparr>mass = 1, maxThrust = 10, maxSpeed = 0\<rparr>
                    \<lparr>vx = 50, vy = 50\<rparr>;
        s2 = clearDroneThrust s1 i;
        s3 = sim_step fmt s2 1
    in map mVelocity (mDrones s3) = [\<lparr>vx = 0, vy = - 9.8\<rparr>]
     \<and> map mPosition (mDrones s3) = [\<lparr>vx = 50, vy = 40.2\<rparr>])"
  by (simp add: mDrones_sim_step addDrone_def new_Simulator_def clearDroneThrust_def
      clearThrust_new_Drone free_fall_update Let_def)

subsection \<open>Claim C7\<close>

text \<open>
  Claim C7, amended. For every drone, time step and world with \<open>0 <= width\<close> and
  \<open>0 <= height\<close>, whatever the double arithmetic returns: each coordinate of the
  position after \<open>update\<close> is a function of the same coordinate before the boundary
  statements (the state that \<open>integrate_d\<close> returns), so each axis is clamped on its
  own; on an axis where the coordinate was below 0 or above the extent the velocity
  component is exactly 0 after the update, on any other axis it is the integrated one;
  and a coordinate that is not NaN before the boundary statements lies between 0 and
  the extent after the update. A coordinate that is NaN before the boundary statements
  is NaN after the update: no comparison with it is true and no clamp fires.
\<close>

theorem update_d_clamps:
  assumes "dle (Fin 0) (width_d world)" and "dle (Fin 0) (height_d world)"
  shows "x_d (mPosition_d (update_d A d dt world))
           = (if dless (x_d (mPosition_d (integrate_d A d dt world))) (Fin 0) then Fin 0
              else if dless (width_d world) (x_d (mPosition_d (integrate_d A d dt world)))
              then width_d world
              else x_d (mPosition_d (integrate_d A d dt world)))
       \<and> y_d (mPosition_d (update_d A d dt world))
           = (if dless (y_d (mPosition_d (integrate_d A d dt world))) (Fin 0) then Fin 0
              else if dless (height_d world) (y_d (mPosition_d (integrate_d A d dt world)))
              then height_d world
              else y_d (mPosition_d (integrate_d A d dt world)))
       \<and> x_d (mVelocity_d (update_d A d dt world))
           = (if dless (x_d (mPosition_d (integrate_d A d dt world))) (Fin 0)
                 \<or> dless (width_d world) (x_d (mPosition_d (integrate_d A d dt world)))
              then Fin 0 else x_d (mVelocity_d (integrate_d A d dt world)))
       \<and> y_d (mVelocity_d (update_d A d dt world))
           = (if dless (y_d (mPosition_d (integrate_d A d dt world))) (Fin 0)
                 \<or> dless (height_d world) (y_d (mPosition_d (integrate_d A d dt world)))
              then Fin 0 else y_d (mVelocity_d (integrate_d A d dt world)))
       \<and> (if x_d (mPosition_d (integrate_d A d dt world)) = NaN
          then x_d (mPosition_d (update_d A d dt world)) = NaN
          else dle (Fin 0) (x_d (mPosition_d (update_d A d dt world)))
             \<and> dle (x_d (mPosition_d (update_d A d dt world))) (width_d world))
       \<and> (if y_d (mPosition_d (integrate_d A d dt world)) = NaN
          then y_d (mPosition_d (update_d A d dt world)) = NaN
          else dle (Fin 0) (y_d (mPosition_d (update_d A d dt world)))
             \<and> dle (y_d (mPosition_d (update_d A d dt world))) (height_d world))"
proof -
  let ?q = "integrate_d A d dt world"
  have px: "x_d (mPosition_d (update_d A d dt world))
           = (if dless (x_d (mPosition_d ?q)) (Fin 0) then Fin 0
              else if dless (width_d world) (x_d (mPosition_d ?q)) then width_d world
              else x_d (mPosition_d ?q))"
    unfolding update_d_def using assms(1) by (rule enforceBounds_d_x)
  have py: "y_d (mPosition_d (update_d A d dt world))
           = (if dless (y_d (mPosition_d ?q)) (Fin 0) then Fin 0
              else if dless (height_d world) (y_d (mPosition_d ?q)) then height_d world
              else y_d (mPosition_d ?q))"
    unfolding update_d_def using assms(2) by (rule enforceBounds_d_y)
  have vx: "x_d (mVelocity_d (update_d A d dt world))
           = (if dless (x_d (mPosition_d ?q)) (Fin 0)
                 \<or> dless (width_d world) (x_d (mPosition_d ?q))
              then Fin 0 else x_d (mVelocity_d ?q))"
    unfolding update_d_def by (rule enforceBounds_d_vx)
  have vy: "y_d (mVelocity_d (update_d A d dt world))
           = (if dless (y_d (mPosition_d ?q)) (Fin 0)
                 \<or> dless (height_d world) (y_d (mPosition_d ?q))
              then Fin 0 else y_d (mVelocity_d ?q))"
    unfolding update_d_def by (rule enforceBounds_d_vy)
  have bx: "if x_d (mPosition_d ?q) = NaN
          then x_d (mPosition_d (update_d A d dt world)) = NaN
          else dle (Fin 0) (x_d (mPosition_d (update_d A d dt world)))
             \<and> dle (x_d (mPosition_d (update_d A d dt world))) (width_d world)"
  proof (cases "x_d (mPosition_d ?q) = NaN")
    case True
    then show ?thesis by (simp add: px)
  next
    case False
    with clamp_axis(1) [OF assms(1) False] show ?thesis by (simp add: px)
  qed
  have "by": "if y_d (mPosition_d ?q) = NaN
          then y_d (mPosition_d (update_d A d dt world)) = NaN
          else dle (Fin 0) (y_d (mPosition_d (update_d A d dt world)))
             \<and> dle (y_d (mPosition_d (update_d A d dt world))) (height_d world)"
  proof (cases "y_d (mPosition_d ?q) = NaN")
    case True
    then show ?thesis by (simp add: py)
  next
    case False
    with clamp_axis(1) [OF assms(2) False] show ?thesis by (simp add: py)
  qed
  from px py vx vy bx "by" show ?thesis
    by (intro conjI)
qed

text \<open>
  In binary64, the drone at rest at \<open>(1, 1)\<close> with no speed limit falls for one second
  under gravity \<open>(0, -2)\<close> to \<open>(1, -1)\<close>; the update puts it on the floor with no
  velocity.
\<close>

theorem update_d_clamps_witness:
  "dle (Fin 0) (width_d box_d)
   \<and> dle (Fin 0) (height_d box_d)
   \<and> mPosition_d (integrate_d binary64 (rest_d (Fin 1) (Fin 0)) (Fin 1) box_d)
       = \<lparr>x_d = Fin 1, y_d = Fin (- 1)\<rparr>
   \<and> mPosition_d (update_d binary64 (rest_d (Fin 1) (Fin 0)) (Fin 1) box_d)
       = \<lparr>x_d = Fin 1, y_d = Fin 0\<rparr>
   \<and> mVelocity_d (update_d binary64 (rest_d (Fin 1) (Fin 0)) (Fin 1) box_d)
       = \<lparr>x_d = Fin 0, y_d = Fin 0\<rparr>"
proof -
  let ?w = "\<lparr>gravity_d = \<lparr>x_d = Fin 0, y_d = Fin (- 2)\<rparr>, width_d = Fin 2, height_d = Fin 2\<rparr>"
  let ?d = "\<lparr>mId_d = 0, mParameters_d = \<lparr>mass_d = Fin 1, maxThrust_d = Fin 1, maxSpeed_d = Fin 0\<rparr>,
          mPosition_d = \<lparr>x_d = Fin 1, y_d = Fin 1\<rparr>, mVelocity_d = \<lparr>x_d = Fin 0, y_d = Fin 0\<rparr>,
          mThrust_d = \<lparr>x_d = Fin 0, y_d = Fin 0\<rparr>\<rparr>"
  have w: "dle (Fin 0) (width_d ?w)" and h: "dle (Fin 0) (height_d ?w)"
    by simp_all
  have q: "integrate_d binary64 ?d (Fin 1) ?w
             = ?d\<lparr>mVelocity_d := \<lparr>x_d = Fin 0, y_d = Fin (- 2)\<rparr>,
                   mPosition_d := \<lparr>x_d = Fin 1, y_d = Fin (- 1)\<rparr>\<rparr>"
    unfolding integrate_d_def Let_def vec_d_ops by (simp add: b64_evals)
  note t = update_d_clamps [OF w h, of binary64 ?d "Fin 1", unfolded q]
  have pos: "mPosition_d (integrate_d binary64 ?d (Fin 1) ?w) = \<lparr>x_d = Fin 1, y_d = Fin (- 1)\<rparr>"
    by (simp add: q)
  from t have px: "x_d (mPosition_d (update_d binary64 ?d (Fin 1) ?w)) = Fin 1"
    and py: "y_d (mPosition_d (update_d binary64 ?d (Fin 1) ?w)) = Fin 0"
    and vx: "x_d (mVelocity_d (update_d binary64 ?d (Fin 1) ?w)) = Fin 0"
    and vy: "y_d (mVelocity_d (update_d binary64 ?d (Fin 1) ?w)) = Fin 0"
    by simp_all
  from px py have p: "mPosition_d (update_d binary64 ?d (Fin 1) ?w) = \<lparr>x_d = Fin 1, y_d = Fin 0\<rparr>"
    by (cases "mPosition_d (update_d binary64 ?d (Fin 1) ?w)") simp
  from vx vy have v: "mVelocity_d (update_d binary64 ?d (Fin 1) ?w) = \<lparr>x_d = Fin 0, y_d = Fin 0\<rparr>"
    by (cases "mVelocity_d (update_d binary64 ?d (Fin 1) ?w)") simp
  from w h pos p v show ?thesis
    unfolding rest_d_def box_d_def by (intro conjI)
qed

text \<open>
  The claim as stated, with the position in \<open>[0, width] \<times> [0, height]\<close> after every
  update, fails in binary64 on finite inputs. The drone at rest at \<open>(1, 1)\<close> with mass
  1 and \<open>maxSpeed = 4\<close> is updated with \<open>dt = 2 ^ 1023\<close> under gravity \<open>(0, -2)\<close>:
  the velocity \<open>-2 * dt\<close> overflows to \<open>-inf\<close>, the speed is \<open>+inf\<close>, the speed limit
  multiplies the velocity by \<open>4 / inf = 0\<close>, and \<open>-inf * 0\<close> is NaN. The position
  before the boundary statements is \<open>(1, NaN)\<close>; all four comparisons are false, and
  the position after the update is \<open>(1, NaN)\<close>, which is neither at least 0 nor at most
  the height.
\<close>

theorem update_overflow_counterexample:
  "dle (Fin 0) (width_d box_d)
   \<and> dle (Fin 0) (height_d box_d)
   \<and> mPosition_d (integrate_d binary64 (rest_d (Fin 1) (Fin 4)) (Fin (2 ^ 1023)) box_d)
       = \<lparr>x_d = Fin 1, y_d = NaN\<rparr>
   \<and> mPosition_d (update_d binary64 (rest_d (Fin 1) (Fin 4)) (Fin (2 ^ 1023)) box_d)
       = \<lparr>x_d = Fin 1, y_d = NaN\<rparr>
   \<and> \<not> dle (Fin 0)
          (y_d (mPosition_d (update_d binary64 (rest_d (Fin 1) (Fin 4)) (Fin (2 ^ 1023)) box_d)))
   \<and> \<not> dle (y_d (mPosition_d (update_d binary64 (rest_d (Fin 1) (Fin 4)) (Fin (2 ^ 1023)) box_d)))
          (height_d box_d)"
  unfolding rest_d_def box_d_def update_d_def overflow_trace_integrate
  by (simp add: enforceBounds_d_def)

subsection \<open>Claim C8\<close>




subsection \<open>Claim C9\<close>



subsection \<open>Claim C10\<close>

text \<open>
  Claim C10. The record appended for a delivered message has \<open>timeReceived\<close> equal to
  the \<open>deliverTime\<close> of the message and \<open>latency\<close> equal to \<open>deliverTime - sendTime\<close>;
  the time \<open>now\<close> of the call does not occur in it. The delivered count grows by the
  number of due messages with a registered recipient and the total latency by the sum of
  their \<open>deliverTime - sendTime\<close>. When every message in transit is due at \<open>now\<close>, a
  step at any later time gives the same nodes, delivered count and total latency as the
  step at \<open>now\<close>.
\<close>

theorem receipt_times_are_scheduled:
  "(\<forall>i<length (nodes n).
      inbox (nodes (net_step n now) ! i)
        = inbox (nodes n ! i)
          @ map (\<lambda>m. \<lparr>rm_id = msg_id m, rm_from = msg_from m,
                       rm_payload = xorCipher (cipherText m) encryptionKey,
                       timeReceived = deliverTime m,
                       latency = deliverTime m - sendTime m\<rparr>)
              (filter (\<lambda>m. deliverTime m \<le> now \<and> getNode n (msg_to m) = Some i) (inTransit n)))
   \<and> deliveredCount (net_step n now)
       = deliveredCount n
         + int (length (filter (\<lambda>m. deliverTime m \<le> now \<and> getNode n (msg_to m) \<noteq> None)
             (inTransit n)))
   \<and> totalLatency (net_step n now)
       = totalLatency n
         + sum_list (map (\<lambda>m. deliverTime m - sendTime m)
             (filter (\<lambda>m. deliverTime m \<le> now \<and> getNode n (msg_to m) \<noteq> None) (inTransit n)))
   \<and> ((\<forall>m\<in>set (inTransit n). deliverTime m \<le> now) \<and> now \<le> late \<longrightarrow>
         nodes (net_step n late) = nodes (net_step n now)
         \<and> deliveredCount (net_step n late) = deliveredCount (net_step n now)
         \<and> totalLatency (net_step n late) = totalLatency (net_step n now))"
proof -
  have inboxes: "\<forall>i<length (nodes n).
      inbox (nodes (net_step n now) ! i)
        = inbox (nodes n ! i)
          @ map (\<lambda>m. \<lparr>rm_id = msg_id m, rm_from = msg_from m,
                       rm_payload = xorCipher (cipherText m) encryptionKey,
                       timeReceived = deliverTime m,
                       latency = deliverTime m - sendTime m\<rparr>)
              (filter (\<lambda>m. deliverTime m \<le> now \<and> getNode n (msg_to m) = Some i) (inTransit n))"
    by (simp add: net_step_nth_node getNode_def receipt_def [abs_def])
  have count: "deliveredCount (net_step n now)
       = deliveredCount n
         + int (length (filter (\<lambda>m. deliverTime m \<le> now \<and> getNode n (msg_to m) \<noteq> None)
             (inTransit n)))"
    by (simp add: net_step_deliveredCount getNode_def)
  have total: "totalLatency (net_step n now)
       = totalLatency n
         + sum_list (map (\<lambda>m. deliverTime m - sendTime m)
             (filter (\<lambda>m. deliverTime m \<le> now \<and> getNode n (msg_to m) \<noteq> None) (inTransit n)))"
    by (simp add: net_step_totalLatency getNode_def)
  have late: "nodes (net_step n late) = nodes (net_step n now)
         \<and> deliveredCount (net_step n late) = deliveredCount (net_step n now)
         \<and> totalLatency (net_step n late) = totalLatency (net_step n now)"
    if due: "\<forall>m\<in>set (inTransit n). deliverTime m \<le> now" and le: "now \<le> late"
  proof -
    have same: "filter (\<lambda>m. deliverTime m \<le> late \<and> Q m) (inTransit n)
                = filter (\<lambda>m. deliverTime m \<le> now \<and> Q m) (inTransit n)" for Q
      using due le by (intro filter_cong) auto
    have "nodes (net_step n late) = nodes (net_step n now)"
      by (rule net_step_nodes_cong) (simp_all add: same)
    then show ?thesis
      by (simp add: net_step_deliveredCount net_step_totalLatency same)
  qed
  from inboxes count total late show ?thesis by blast
qed

theorem receipt_times_are_scheduled_witness:
  "1 < length (nodes example_busy)
   \<and> map deliverTime (inTransit example_busy) = [1, 1, 6] \<and> (6::real) \<le> 100
   \<and> inbox (nodes (net_step example_busy 6) ! 1)
       = [\<lparr>rm_id = 1, rm_from = ''A'', rm_payload = ''hi'', timeReceived = 1, latency = 1\<rparr>,
          \<lparr>rm_id = 3, rm_from = ''A'', rm_payload = ''yo'', timeReceived = 6, latency = 1\<rparr>]
   \<and> nodes (net_step example_busy 100) = nodes (net_step example_busy 6)
   \<and> deliveredCount (net_step example_busy 100) = 2
   \<and> totalLatency (net_step example_busy 100) = 2"
proof -
  note t = receipt_times_are_scheduled [of example_busy 6 100]
  have len: "1 < length (nodes example_busy)"
    by (simp add: example_busy_fields)
  have due: "\<forall>m\<in>set (inTransit example_busy). deliverTime m \<le> 6"
    by (simp add: example_busy_fields)
  from t len have "inbox (nodes (net_step example_busy 6) ! 1)
        = inbox (nodes example_busy ! 1)
          @ map (\<lambda>m. \<lparr>rm_id = msg_id m, rm_from = msg_from m,
                       rm_payload = xorCipher (cipherText m) encryptionKey,
                       timeReceived = deliverTime m,
                       latency = deliverTime m - sendTime m\<rparr>)
              (filter (\<lambda>m. deliverTime m \<le> 6 \<and> getNode example_busy (msg_to m) = Some 1)
                 (inTransit example_busy))"
    by blast
  then have a: "inbox (nodes (net_step example_busy 6) ! 1)
       = [\<lparr>rm_id = 1, rm_from = ''A'', rm_payload = ''hi'', timeReceived = 1, latency = 1\<rparr>,
          \<lparr>rm_id = 3, rm_from = ''A'', rm_payload = ''yo'', timeReceived = 6, latency = 1\<rparr>]"
    by (simp add: example_busy_fields getNode_def new_Node_def)
      (simp add: example_hi_def example_yo_def xorCipher_involution)
  from t due have late: "nodes (net_step example_busy 100) = nodes (net_step example_busy 6)
         \<and> deliveredCount (net_step example_busy 100) = deliveredCount (net_step example_busy 6)
         \<and> totalLatency (net_step example_busy 100) = totalLatency (net_step example_busy 6)"
    by simp
  from t have "deliveredCount (net_step example_busy 6) = 2"
    by (simp add: example_busy_fields getNode_def)
  with late have b: "deliveredCount (net_step example_busy 100) = 2"
    by simp
  from t have "totalLatency (net_step example_busy 6) = 2"
    by (simp add: example_busy_fields getNode_def)
  with late have c: "totalLatency (net_step example_busy 100) = 2"
    by simp
  have times: "map deliverTime (inTransit example_busy) = [1, 1, 6]"
    by (simp add: example_busy_fields)
  from len times a late b c show ?thesis
    by simp
qed

end
